theory Spec2Isabelle
  imports Main "HOL-Library.Sublist" "HOL-Library.AList"
begin

section \<open>Text primitives of the SSE relay\<close>

text \<open>
  A JavaScript string is modelled as a \<^typ>\<open>string\<close>: one \<^typ>\<open>char\<close> per code unit, for
  the code units below 256. The functions below are the string operations the relay
  calls: \<open>split\<close>, \<open>join\<close>, \<open>startsWith\<close>, \<open>trim\<close>, and the two regular-expression
  replacements \<open>replace(/^\s/, '')\<close> and \<open>replace(/\r\n/g, '\n')\<close>.
\<close>

abbreviation LF :: char where "LF \<equiv> CHR 0x0A"
abbreviation CR :: char where "CR \<equiv> CHR 0x0D"

definition cons_first :: "char \<Rightarrow> string list \<Rightarrow> string list" where
  "cons_first c r = (case r of [] \<Rightarrow> [[c]] | y # ys \<Rightarrow> (c # y) # ys)"

text \<open>\<open>s.split(sep)\<close> for a non-empty separator: cut at every occurrence, left to right,
  without overlap; the empty string gives one empty piece.\<close>

function split_on :: "string \<Rightarrow> string \<Rightarrow> string list" where
  "split_on sep [] = [[]]"
| "split_on sep (x # xs) =
     (if sep \<noteq> [] \<and> prefix sep (x # xs)
      then [] # split_on sep (drop (length sep - 1) xs)
      else cons_first x (split_on sep xs))"
  by pat_completeness auto
termination
  by (relation "measure (\<lambda>(sep, s). length s)") auto

text \<open>\<open>xs.join(sep)\<close>.\<close>

fun join :: "string \<Rightarrow> string list \<Rightarrow> string" where
  "join sep [] = []"
| "join sep [x] = x"
| "join sep (x # y # ys) = x @ sep @ join sep (y # ys)"

definition startsWith :: "string \<Rightarrow> string \<Rightarrow> bool" where
  "startsWith s p = prefix p s"

text \<open>The class \<open>\s\<close> of a regular expression, and the characters \<open>trim\<close> removes:
  tab, line feed, vertical tab, form feed, carriage return, space, no-break space.\<close>

definition is_ws :: "char \<Rightarrow> bool" where
  "is_ws c = (c = CHR 0x09 \<or> c = LF \<or> c = CHR 0x0B \<or> c = CHR 0x0C \<or> c = CR
              \<or> c = CHR 0x20 \<or> c = CHR 0xA0)"

definition trim :: "string \<Rightarrow> string" where
  "trim s = rev (dropWhile is_ws (rev (dropWhile is_ws s)))"

text \<open>\<open>s.replace(/^\s/, '')\<close>: one leading whitespace character is removed.\<close>

definition strip_leading_ws :: "string \<Rightarrow> string" where
  "strip_leading_ws s = (case s of [] \<Rightarrow> [] | c # cs \<Rightarrow> if is_ws c then cs else c # cs)"

text \<open>\<open>s.replace(/\r\n/g, '\n')\<close>.\<close>

fun crlf_to_lf :: "string \<Rightarrow> string" where
  "crlf_to_lf [] = []"
| "crlf_to_lf [c] = [c]"
| "crlf_to_lf (a # b # cs) =
     (if a = CR \<and> b = LF then LF # crlf_to_lf cs else a # crlf_to_lf (b # cs))"

section \<open>JSON values\<close>

text \<open>
  The values \<open>JSON.parse\<close> returns. An absent property (\<open>undefined\<close>) is \<open>None\<close> of
  \<^typ>\<open>'a option\<close>. The number carried by \<open>JNum\<close> is never inspected by the relay.
\<close>

datatype json =
    JNull
  | JBool bool
  | JNum int
  | JStr string
  | JArr "json list"
  | JObj "(string \<times> json) list"

text \<open>Truthiness of a value (\<open>if (v)\<close>, \<open>v && ...\<close>).\<close>

fun truthy :: "json option \<Rightarrow> bool" where
  "truthy None = False"
| "truthy (Some JNull) = False"
| "truthy (Some (JBool b)) = b"
| "truthy (Some (JNum n)) = (n \<noteq> 0)"
| "truthy (Some (JStr s)) = (s \<noteq> [])"
| "truthy (Some (JArr xs)) = True"
| "truthy (Some (JObj fs)) = True"

text \<open>\<open>typeof v\<close>.\<close>

fun typeof :: "json option \<Rightarrow> string" where
  "typeof None = ''undefined''"
| "typeof (Some JNull) = ''object''"
| "typeof (Some (JBool b)) = ''boolean''"
| "typeof (Some (JNum n)) = ''number''"
| "typeof (Some (JStr s)) = ''string''"
| "typeof (Some (JArr xs)) = ''object''"
| "typeof (Some (JObj fs)) = ''object''"

text \<open>Property access \<open>v?.k\<close> for the property names the relay reads (none of them is
  a property of a string, an array or a prototype): the field of an object, and
  \<open>undefined\<close> on everything else.\<close>

fun get_field :: "json option \<Rightarrow> string \<Rightarrow> json option" where
  "get_field (Some (JObj fs)) k = map_of fs k"
| "get_field v k = None"

text \<open>\<open>a ?? b\<close>.\<close>

definition nullish :: "json option \<Rightarrow> json option \<Rightarrow> json option" where
  "nullish a b = (if a = None \<or> a = Some JNull then b else a)"

section \<open>Event-block codec: parseSseDataPayload\<close>

text \<open>The local \<open>dataLines\<close> of \<open>parseSseDataPayload\<close>.\<close>

definition dataLines :: "string \<Rightarrow> string list" where
  "dataLines block =
     map (\<lambda>line. strip_leading_ws (drop 5 line))
       (filter (\<lambda>line. startsWith line ''data:'') (split_on [LF] block))"

text \<open>The local \<open>payloadText\<close>.\<close>

definition payloadText :: "string \<Rightarrow> string" where
  "payloadText block = trim (join [LF] (dataLines block))"

text \<open>
  \<open>parseSseDataPayload\<close>. \<open>JSON.parse\<close> is the platform's; it is the parameter
  \<open>parse\<close>, which returns \<open>None\<close> where \<open>JSON.parse\<close> throws. The result \<open>None\<close> is the
  \<open>null\<close> of the source.
\<close>

definition parseSseDataPayload :: "(string \<Rightarrow> json option) \<Rightarrow> string \<Rightarrow> json option" where
  "parseSseDataPayload parse block =
     (if block = [] then None
      else if length (dataLines block) = 0 then None
      else if payloadText block = [] then None
      else (case parse (payloadText block) of
              None \<Rightarrow> None
            | Some parsed \<Rightarrow>
                if truthy (Some parsed) \<and> typeof (Some parsed) = ''object''
                then (let nestedPayload = get_field (Some parsed) ''payload''
                      in if truthy nestedPayload \<and> typeof nestedPayload = ''object''
                         then nestedPayload else Some parsed)
                else None))"

section \<open>Activity deriver: deriveSessionActivity\<close>

datatype SessionActivityPhase = Idle | Busy | Cooldown

record SessionActivity =
  sessionId :: string
  phase :: SessionActivityPhase

text \<open>The string of a value that \<open>typeof\<close> has found to be a string.\<close>

fun str_of :: "json option \<Rightarrow> string" where
  "str_of (Some (JStr s)) = s"
| "str_of v = []"

definition deriveSessionActivity :: "json option \<Rightarrow> SessionActivity option" where
  "deriveSessionActivity payload =
     (if \<not> truthy payload \<or> typeof payload \<noteq> ''object'' then None
      else
        let type = get_field payload ''type'';
            properties = get_field payload ''properties''
        in
        if type = Some (JStr ''session.status'') then
          (let status = get_field properties ''status'';
               sid = nullish (get_field properties ''sessionID'') (get_field properties ''sessionId'');
               statusType = get_field status ''type''
           in if typeof sid = ''string'' \<and> length (str_of sid) > 0 \<and> typeof statusType = ''string''
              then Some \<lparr>sessionId = str_of sid,
                         phase = (if statusType = Some (JStr ''busy'') \<or> statusType = Some (JStr ''retry'')
                                  then Busy else Idle)\<rparr>
              else None)
        else if type = Some (JStr ''message.updated'') then
          (let info = get_field payload ''info'';
               role = get_field info ''role'';
               finish = get_field info ''finish'';
               sid = nullish (nullish (nullish (get_field info ''sessionID'') (get_field info ''sessionId''))
                                (get_field properties ''sessionID''))
                       (get_field properties ''sessionId'')
           in if typeof sid = ''string'' \<and> length (str_of sid) > 0
                 \<and> role = Some (JStr ''assistant'') \<and> finish = Some (JStr ''stop'')
              then Some \<lparr>sessionId = str_of sid, phase = Cooldown\<rparr>
              else None)
        else if type = Some (JStr ''message.complete'') then
          (let info = get_field payload ''info'';
               role = get_field info ''role'';
               finish = get_field info ''finish'';
               sid = nullish (nullish (nullish (get_field info ''sessionID'') (get_field info ''sessionId''))
                                (get_field properties ''sessionID''))
                       (get_field properties ''sessionId'')
           in if typeof sid = ''string'' \<and> length (str_of sid) > 0
                 \<and> role = Some (JStr ''assistant'') \<and> finish = Some (JStr ''stop'')
              then Some \<lparr>sessionId = str_of sid, phase = Cooldown\<rparr>
              else None)
        else if type = Some (JStr ''session.idle'') then
          (let sid = nullish (get_field properties ''sessionID'') (get_field properties ''sessionId'')
           in if typeof sid = ''string'' \<and> length (str_of sid) > 0
              then Some \<lparr>sessionId = str_of sid, phase = Idle\<rparr>
              else None)
        else None)"

section \<open>Synthetic blocks, activity expansion, global-scope wrapper\<close>

text \<open>
  \<open>JSON.stringify\<close> and \<open>Date.now()\<close> are the platform's: they are the parameters
  \<open>stringify\<close> and \<open>now\<close>.
\<close>

fun phase_name :: "SessionActivityPhase \<Rightarrow> string" where
  "phase_name Idle = ''idle''"
| "phase_name Busy = ''busy''"
| "phase_name Cooldown = ''cooldown''"

definition activity_object :: "int \<Rightarrow> SessionActivity \<Rightarrow> json" where
  "activity_object now activity =
     JObj [(''type'', JStr ''openchamber:session-activity''),
           (''properties'', JObj [(''sessionId'', JStr (sessionId activity)),
                                  (''phase'', JStr (phase_name (phase activity))),
                                  (''at'', JNum now)])]"

definition buildActivityEventBlock :: "(json \<Rightarrow> string) \<Rightarrow> int \<Rightarrow> SessionActivity \<Rightarrow> string" where
  "buildActivityEventBlock stringify now activity =
     join [LF] [''event: message'', ''data: '' @ stringify (activity_object now activity)]"

definition heartbeat_object :: "int \<Rightarrow> json" where
  "heartbeat_object now =
     JObj [(''type'', JStr ''openchamber:heartbeat''), (''properties'', JObj [(''at'', JNum now)])]"

definition buildHeartbeatEventBlock :: "(json \<Rightarrow> string) \<Rightarrow> int \<Rightarrow> string" where
  "buildHeartbeatEventBlock stringify now =
     join [LF] [''event: message'', ''data: '' @ stringify (heartbeat_object now)]"

text \<open>\<open>expandSseBlocksWithActivity\<close>: the loop over \<open>blocks\<close> pushes each block and, when
  it implies an activity, the synthetic block after it.\<close>

fun expandSseBlocksWithActivity ::
  "(string \<Rightarrow> json option) \<Rightarrow> (json \<Rightarrow> string) \<Rightarrow> int \<Rightarrow> string list \<Rightarrow> string list" where
  "expandSseBlocksWithActivity parse stringify now [] = []"
| "expandSseBlocksWithActivity parse stringify now (block # blocks) =
     (case deriveSessionActivity (parseSseDataPayload parse block) of
        None \<Rightarrow> [block]
      | Some activity \<Rightarrow> [block, buildActivityEventBlock stringify now activity])
     @ expandSseBlocksWithActivity parse stringify now blocks"

text \<open>The same loop with every pushed block marked: \<open>True\<close> for a block of the input,
  \<open>False\<close> for an injected one.\<close>

fun expand_marked ::
  "(string \<Rightarrow> json option) \<Rightarrow> (json \<Rightarrow> string) \<Rightarrow> int \<Rightarrow> string list \<Rightarrow> (bool \<times> string) list" where
  "expand_marked parse stringify now [] = []"
| "expand_marked parse stringify now (block # blocks) =
     (case deriveSessionActivity (parseSseDataPayload parse block) of
        None \<Rightarrow> [(True, block)]
      | Some activity \<Rightarrow> [(True, block), (False, buildActivityEventBlock stringify now activity)])
     @ expand_marked parse stringify now blocks"

definition wrappedPayload :: "string \<Rightarrow> json option \<Rightarrow> json" where
  "wrappedPayload directory payload =
     (case payload of
        Some p \<Rightarrow> if truthy (Some p)
                  then JObj [(''directory'', JStr directory), (''payload'', p)]
                  else JObj [(''directory'', JStr directory), (''payload'', JNull)]
      | None \<Rightarrow> JObj [(''directory'', JStr directory), (''payload'', JNull)])"

definition wrapSseBlock ::
  "(string \<Rightarrow> json option) \<Rightarrow> (json \<Rightarrow> string) \<Rightarrow> string \<Rightarrow> string \<Rightarrow> string" where
  "wrapSseBlock parse stringify directory block =
     (let payload = parseSseDataPayload parse block;
          updatedLines = filter (\<lambda>line. \<not> startsWith line ''data:'') (split_on [LF] block)
      in join [LF] (updatedLines @ [''data: '' @ stringify (wrappedPayload directory payload)]))"

definition wrapSseBlocksAsGlobal ::
  "(string \<Rightarrow> json option) \<Rightarrow> (json \<Rightarrow> string) \<Rightarrow> string list \<Rightarrow> string \<Rightarrow> string list" where
  "wrapSseBlocksAsGlobal parse stringify blocks directory =
     map (wrapSseBlock parse stringify directory) blocks"

section \<open>The codec in the words of its description\<close>

text \<open>
  The codec as the specification words it: the lines of the block that begin with
  \<open>data:\<close>, without that prefix and without what \<open>strip\<close> removes, joined by line feeds
  and trimmed; nothing when there is no such line or the text is empty; otherwise the
  parsed value, where an object with an object-valued \<open>payload\<close> gives that payload,
  any other object gives itself, and everything else gives nothing. Arrays pass the
  object check of the source and count as objects here.
\<close>

definition strip_one_space :: "string \<Rightarrow> string" where
  "strip_one_space s = (case s of [] \<Rightarrow> [] | c # cs \<Rightarrow> if c = CHR '' '' then cs else c # cs)"

fun unwrap_envelope :: "json option \<Rightarrow> json option" where
  "unwrap_envelope (Some (JObj fs)) =
     (case map_of fs ''payload'' of
        Some (JObj g) \<Rightarrow> Some (JObj g)
      | Some (JArr a) \<Rightarrow> Some (JArr a)
      | _ \<Rightarrow> Some (JObj fs))"
| "unwrap_envelope (Some (JArr xs)) = Some (JArr xs)"
| "unwrap_envelope v = None"

definition decode_with ::
  "(string \<Rightarrow> string) \<Rightarrow> (string \<Rightarrow> json option) \<Rightarrow> string \<Rightarrow> json option" where
  "decode_with strip parse block =
     (let ls = [strip (drop 5 l). l \<leftarrow> split_on [LF] block, prefix ''data:'' l];
          t = trim (join [LF] ls)
      in if ls = [] \<or> t = [] then None else unwrap_envelope (parse t))"

section \<open>The activity deriver in the words of its description\<close>

text \<open>
  The session id "resolved from" a list of fields: the first of them that is present
  and not null decides, and it must be a non-empty string.
\<close>


fun resolve_id :: "json option list \<Rightarrow> string option" where
  "resolve_id [] = None"
| "resolve_id (None # vs) = resolve_id vs"
| "resolve_id (Some JNull # vs) = resolve_id vs"
| "resolve_id (Some (JStr s) # vs) = (if s = [] then None else Some s)"
| "resolve_id (Some v # vs) = None"

text \<open>The table of the specification: dispatch on the \<open>type\<close> of an object payload.\<close>

definition derive_spec :: "json option \<Rightarrow> SessionActivity option" where
  "derive_spec payload =
     (case payload of
        Some (JObj fs) \<Rightarrow>
          (case map_of fs ''type'' of
             Some (JStr t) \<Rightarrow>
               (let props = map_of fs ''properties''; info = map_of fs ''info''
                in if t = ''session.status'' then
                     (case resolve_id [get_field props ''sessionID'', get_field props ''sessionId''] of
                        Some sid \<Rightarrow>
                          (case get_field (get_field props ''status'') ''type'' of
                             Some (JStr st) \<Rightarrow>
                               Some \<lparr>sessionId = sid,
                                     phase = (if st = ''busy'' \<or> st = ''retry'' then Busy else Idle)\<rparr>
                           | _ \<Rightarrow> None)
                      | None \<Rightarrow> None)
                   else if t = ''message.updated'' \<or> t = ''message.complete'' then
                     (case resolve_id [get_field info ''sessionID'', get_field info ''sessionId'',
                                       get_field props ''sessionID'', get_field props ''sessionId''] of
                        Some sid \<Rightarrow>
                          if get_field info ''role'' = Some (JStr ''assistant'')
                             \<and> get_field info ''finish'' = Some (JStr ''stop'')
                          then Some \<lparr>sessionId = sid, phase = Cooldown\<rparr> else None
                      | None \<Rightarrow> None)
                   else if t = ''session.idle'' then
                     (case resolve_id [get_field props ''sessionID'', get_field props ''sessionId''] of
                        Some sid \<Rightarrow> Some \<lparr>sessionId = sid, phase = Idle\<rparr>
                      | None \<Rightarrow> None)
                   else None)
           | _ \<Rightarrow> None)
      | _ \<Rightarrow> None)"

text \<open>The test \<open>typeof v === 'string' && v.length > 0\<close>.\<close>

definition nonempty_string :: "json option \<Rightarrow> string option" where
  "nonempty_string v = (if typeof v = ''string'' \<and> length (str_of v) > 0 then Some (str_of v) else None)"

section \<open>Panel session registry, control requests, heartbeat\<close>

text \<open>
  Objects with identity are addresses: an \<open>AbortController\<close>, an interval timer and a
  \<open>SessionPanelState\<close> entry are natural numbers. The provider's state holds the
  registry \<open>_panels\<close>, the entry objects, the counter \<open>_sseCounter\<close>, the set of
  controllers whose signal is aborted, the set of interval timers still scheduled, and
  the messages posted to the webviews (entry and message, in posting order). The
  JavaScript \<open>Map\<close>s are association lists in insertion order.
\<close>

datatype message =
    Chunk string string
  | End string "string option"

record SessionPanelState =
  sseStreams :: "(string \<times> nat) list"
  sseHeartbeats :: "(string \<times> nat) list"

record provider =
  panels :: "(string \<times> nat) list"
  entries :: "nat \<Rightarrow> SessionPanelState"
  sseCounter :: nat
  aborted :: "nat set"
  intervals :: "nat set"
  posted :: "(nat \<times> message) list"
  fresh :: nat

definition postMessage :: "nat \<Rightarrow> message \<Rightarrow> provider \<Rightarrow> provider" where
  "postMessage e m w = w\<lparr>posted := posted w @ [(e, m)]\<rparr>"

text \<open>\<open>_disposePanel\<close>.\<close>

definition disposePanel :: "string \<Rightarrow> provider \<Rightarrow> provider" where
  "disposePanel panelId w =
     (case map_of (panels w) panelId of
        None \<Rightarrow> w
      | Some e \<Rightarrow>
          w\<lparr>aborted := aborted w \<union> set (map snd (sseStreams (entries w e))),
            intervals := intervals w - set (map snd (sseHeartbeats (entries w e))),
            entries := (entries w)(e := \<lparr>sseStreams = [], sseHeartbeats = []\<rparr>),
            panels := AList.delete panelId (panels w)\<rparr>)"

text \<open>\<open>_buildSseHeaders\<close>: an object literal with the three fixed properties, then the
  spread of \<open>extra || {}\<close>. A plain object is a map from property names to values.\<close>

definition fixedSseHeaders :: "string \<rightharpoonup> string" where
  "fixedSseHeaders =
     [''Accept'' \<mapsto> ''text/event-stream'', ''Cache-Control'' \<mapsto> ''no-cache'',
      ''Connection'' \<mapsto> ''keep-alive'']"

definition buildSseHeaders :: "(string \<rightharpoonup> string) option \<Rightarrow> (string \<rightharpoonup> string)" where
  "buildSseHeaders extra =
     fixedSseHeaders ++ (case extra of None \<Rightarrow> Map.empty | Some headers \<Rightarrow> headers)"

text \<open>\<open>_collectHeaders\<close>: \<open>Headers.forEach\<close> over the entries of the response headers.\<close>

definition collectHeaders :: "(string \<times> string) list \<Rightarrow> (string \<rightharpoonup> string)" where
  "collectHeaders hs = foldl (\<lambda>result (key, v). result(key \<mapsto> v)) Map.empty hs"

text \<open>Bridge requests \<open>{id, type, payload}\<close> and responses \<open>{id, type, success, data}\<close>.
  The \<open>headers\<close> of a start payload are typed \<open>Record<string, string>\<close> in the source.\<close>

record BridgeRequest =
  req_id :: string
  req_type :: string
  req_payload :: "json option"
  req_headers :: "(string \<rightharpoonup> string) option"

datatype response_data =
    StartData nat "string \<rightharpoonup> string" "string option" "string option"
  | StopData bool

record BridgeResponse =
  res_id :: string
  res_type :: string
  success :: bool
  data :: response_data

text \<open>\<open>(payload || {})\<close>.\<close>

definition payload_or_empty :: "json option \<Rightarrow> json option" where
  "payload_or_empty payload = (if truthy payload then payload else Some (JObj []))"

text \<open>\<open>_stopSseProxy\<close>, for the entry object \<open>e\<close>.\<close>

definition stopSseProxy :: "BridgeRequest \<Rightarrow> nat \<Rightarrow> provider \<Rightarrow> BridgeResponse \<times> provider" where
  "stopSseProxy msg e w =
     (let streamId = get_field (payload_or_empty (req_payload msg)) ''streamId'';
          w2 =
            (if typeof streamId = ''string'' \<and> length (str_of streamId) > 0 then
               (let w1 =
                      (case map_of (sseStreams (entries w e)) (str_of streamId) of
                         Some controller \<Rightarrow>
                           w\<lparr>aborted := insert controller (aborted w),
                             entries := (entries w)(e := (entries w e)
                               \<lparr>sseStreams := AList.delete (str_of streamId) (sseStreams (entries w e))\<rparr>)\<rparr>
                       | None \<Rightarrow> w)
                in case map_of (sseHeartbeats (entries w1 e)) (str_of streamId) of
                     Some heartbeat \<Rightarrow>
                       w1\<lparr>intervals := intervals w1 - {heartbeat},
                          entries := (entries w1)(e := (entries w1 e)
                            \<lparr>sseHeartbeats := AList.delete (str_of streamId) (sseHeartbeats (entries w1 e))\<rparr>)\<rparr>
                   | None \<Rightarrow> w1)
             else w)
      in (\<lparr>res_id = req_id msg, res_type = req_type msg, success = True, data = StopData True\<rparr>, w2))"

text \<open>The callback of the heartbeat interval of a stream: the closure holds the
  controller, the entry and the stream id.\<close>

definition heartbeatTick ::
  "(json \<Rightarrow> string) \<Rightarrow> int \<Rightarrow> nat \<Rightarrow> nat \<Rightarrow> string \<Rightarrow> provider \<Rightarrow> provider" where
  "heartbeatTick stringify now controller e streamId w =
     (if controller \<in> aborted w then w
      else postMessage e (Chunk streamId (buildHeartbeatEventBlock stringify now @ [LF, LF])) w)"

section \<open>The relay loop of a proxy stream\<close>

text \<open>
  A value thrown by the platform: an \<open>Error\<close> with its message, or another value with
  its \<open>String(...)\<close>. \<open>messageText\<close> is
  \<open>error instanceof Error ? error.message : String(error)\<close>.
\<close>

datatype thrown = JsError string | JsValue string

fun messageText :: "thrown \<Rightarrow> string" where
  "messageText (JsError m) = m"
| "messageText (JsValue s) = s"

text \<open>
  The state of the detached task of one stream: the constants its closure holds and
  the local \<open>sseBuffer\<close>.
\<close>

record relay =
  r_streamId :: string
  r_controller :: nat
  r_entry :: nat
  shouldInjectActivity :: bool
  wrapAsGlobal :: bool
  fallbackDirectory :: string
  sseBuffer :: string

text \<open>The blocks sent for a batch of complete blocks, and their joined text
  \<open>outboundBlocks.map((block) => `${block}\n\n`).join('')\<close>.\<close>

definition outboundBlocks ::
  "(string \<Rightarrow> json option) \<Rightarrow> (json \<Rightarrow> string) \<Rightarrow> int \<Rightarrow> relay \<Rightarrow> string list \<Rightarrow> string list" where
  "outboundBlocks parse stringify now r blocks =
     (let routedBlocks = (if wrapAsGlobal r
                          then wrapSseBlocksAsGlobal parse stringify blocks (fallbackDirectory r)
                          else blocks)
      in if shouldInjectActivity r
         then expandSseBlocksWithActivity parse stringify now routedBlocks
         else routedBlocks)"

definition joined :: "string list \<Rightarrow> string" where
  "joined blocks = concat (map (\<lambda>block. block @ [LF, LF]) blocks)"

text \<open>One turn of the \<open>while\<close> loop for a read that is not \<open>done\<close>, on a stream that is
  not aborted; \<open>chunk\<close> is the text the decoder gives for the bytes read.\<close>

definition relayRead ::
  "(string \<Rightarrow> json option) \<Rightarrow> (json \<Rightarrow> string) \<Rightarrow> int \<Rightarrow> string \<Rightarrow> relay \<times> provider
     \<Rightarrow> relay \<times> provider" where
  "relayRead parse stringify now chunk rw =
     (let r = fst rw; w = snd rw in
      if chunk = [] then (r, w)
      else
        let buf = sseBuffer r @ (if shouldInjectActivity r then crlf_to_lf chunk else chunk);
            blocks = split_on [LF, LF] buf;
            r' = r\<lparr>sseBuffer := (case blocks of [] \<Rightarrow> [] | _ \<Rightarrow> last blocks)\<rparr>;
            complete = butlast blocks
        in if length complete > 0
           then (r', postMessage (r_entry r)
                       (Chunk (r_streamId r) (joined (outboundBlocks parse stringify now r complete))) w)
           else (r', w))"

text \<open>The \<open>finally\<close> of the task: the stream leaves the stream map, its heartbeat timer
  is cleared and leaves the timer map.\<close>

definition relayCleanup :: "relay \<Rightarrow> provider \<Rightarrow> provider" where
  "relayCleanup r w =
     (let w1 = w\<lparr>entries := (entries w)(r_entry r := (entries w (r_entry r))
                   \<lparr>sseStreams := AList.delete (r_streamId r) (sseStreams (entries w (r_entry r)))\<rparr>)\<rparr>
      in case map_of (sseHeartbeats (entries w1 (r_entry r))) (r_streamId r) of
           Some heartbeat \<Rightarrow>
             w1\<lparr>intervals := intervals w1 - {heartbeat},
                entries := (entries w1)(r_entry r := (entries w1 (r_entry r))
                  \<lparr>sseHeartbeats := AList.delete (r_streamId r) (sseHeartbeats (entries w1 (r_entry r)))\<rparr>)\<rparr>
         | None \<Rightarrow> w1)"

text \<open>After the loop: the decoder's \<open>tail\<close>, the flush of the residual buffer, the
  \<open>end\<close> message, the cleanup.\<close>

definition relayEnd ::
  "(string \<Rightarrow> json option) \<Rightarrow> (json \<Rightarrow> string) \<Rightarrow> int \<Rightarrow> string \<Rightarrow> relay \<times> provider
     \<Rightarrow> relay \<times> provider" where
  "relayEnd parse stringify now tail rw =
     (let r = fst rw; w = snd rw;
          buf = (if tail \<noteq> []
                 then sseBuffer r @ (if shouldInjectActivity r then crlf_to_lf tail else tail)
                 else sseBuffer r);
          r' = r\<lparr>sseBuffer := buf\<rparr>;
          w1 = (if buf \<noteq> [] then
                  (if shouldInjectActivity r
                   then postMessage (r_entry r)
                          (Chunk (r_streamId r)
                             (joined (expandSseBlocksWithActivity parse stringify now
                                (if wrapAsGlobal r
                                 then wrapSseBlocksAsGlobal parse stringify [buf] (fallbackDirectory r)
                                 else [buf])))) w
                   else postMessage (r_entry r) (Chunk (r_streamId r) buf) w)
                else w)
      in (r', relayCleanup r (postMessage (r_entry r) (End (r_streamId r) None) w1)))"

text \<open>The \<open>catch\<close> of the task, for a read that rejects with \<open>error\<close>.\<close>

definition relayError :: "thrown \<Rightarrow> relay \<times> provider \<Rightarrow> relay \<times> provider" where
  "relayError error rw =
     (let r = fst rw; w = snd rw;
          w1 = (if r_controller r \<notin> aborted w
                then postMessage (r_entry r) (End (r_streamId r) (Some (messageText error))) w
                else w)
      in (r, relayCleanup r w1))"

text \<open>The task over the outcomes of its reads: a value, the end of the body, or a
  rejection. With no outcome left the task is suspended in \<open>reader.read()\<close>.\<close>

datatype read_result = ReadValue string | ReadDone | ReadThrows thrown

fun relayLoop ::
  "(string \<Rightarrow> json option) \<Rightarrow> (json \<Rightarrow> string) \<Rightarrow> int \<Rightarrow> string \<Rightarrow> read_result list
     \<Rightarrow> relay \<times> provider \<Rightarrow> relay \<times> provider" where
  "relayLoop parse stringify now tail [] rw = rw"
| "relayLoop parse stringify now tail (ReadDone # rest) rw = relayEnd parse stringify now tail rw"
| "relayLoop parse stringify now tail (ReadThrows error # rest) rw = relayError error rw"
| "relayLoop parse stringify now tail (ReadValue chunk # rest) rw =
     (if r_controller (fst rw) \<in> aborted (snd rw)
      then relayEnd parse stringify now tail rw
      else relayLoop parse stringify now tail rest (relayRead parse stringify now chunk rw))"

text \<open>A stop request and a provider with one panel, one stream and its timer, for the
  concrete examples.\<close>

definition sample_stop :: BridgeRequest where
  "sample_stop = \<lparr>req_id = ''7'', req_type = ''api:sse:stop'',
                   req_payload = Some (JObj [(''streamId'', JStr ''sse_1_5'')]), req_headers = None\<rparr>"

definition sample_provider :: provider where
  "sample_provider =
     \<lparr>panels = [(''p1'', 0)],
      entries = (\<lambda>e. \<lparr>sseStreams = [], sseHeartbeats = []\<rparr>)
                  (0 := \<lparr>sseStreams = [(''sse_1_5'', 2), (''sse_2_9'', 4)], sseHeartbeats = [(''sse_1_5'', 3)]\<rparr>),
      sseCounter = 2, aborted = {}, intervals = {3}, posted = [], fresh = 5\<rparr>"

definition sample_relay :: relay where
  "sample_relay =
     \<lparr>r_streamId = ''sse_1_5'', r_controller = 2, r_entry = 0, shouldInjectActivity = True,
      wrapAsGlobal = False, fallbackDirectory = ''global'', sseBuffer = ''data: x''\<rparr>"

section \<open>Sample values for the concrete examples\<close>

text \<open>The shape \<open>{directory, payload}\<close> with the given directory.\<close>

fun is_envelope :: "string \<Rightarrow> json \<Rightarrow> bool" where
  "is_envelope directory (JObj [(k1, JStr d), (k2, p)]) =
     (k1 = ''directory'' \<and> d = directory \<and> k2 = ''payload'')"
| "is_envelope directory v = False"

text \<open>
  A finite part of the graph of \<open>JSON.stringify\<close>, for the concrete examples: a
  \<open>session.idle\<close> event in its envelope, the activity derived from it, the envelope of
  null, a heartbeat (the clock reads \<open>0\<close>, the directory is \<open>/w\<close>).
\<close>

definition idle_event :: json where
  "idle_event = JObj [(''type'', JStr ''session.idle''), (''properties'', JObj [(''sessionID'', JStr ''s1'')])]"

definition idle_text :: string where
  \<open>idle_text = ''{"type":"session.idle","properties":{"sessionID":"s1"}}''\<close>

definition idle_wrapped_text :: string where
  \<open>idle_wrapped_text = ''{"directory":"/w","payload":{"type":"session.idle","properties":{"sessionID":"s1"}}}''\<close>

definition idle_activity_text :: string where
  \<open>idle_activity_text = ''{"type":"openchamber:session-activity","properties":{"sessionId":"s1","phase":"idle","at":0}}''\<close>

definition stringify_sample :: "json \<Rightarrow> string" where
  \<open>stringify_sample v =
     (if v = JObj [(''directory'', JStr ''/w''), (''payload'', idle_event)] then idle_wrapped_text
      else if v = activity_object 0 \<lparr>sessionId = ''s1'', phase = Idle\<rparr> then idle_activity_text
      else if v = JObj [(''directory'', JStr ''/w''), (''payload'', JNull)]
        then ''{"directory":"/w","payload":null}''
      else if v = heartbeat_object 0 then ''{"type":"openchamber:heartbeat","properties":{"at":0}}''
      else ''null'')\<close>

text \<open>
  A finite part of the graph of \<open>JSON.parse\<close>, for the concrete examples: the listed
  texts with their values, a syntax error for the other texts the examples parse
  (\<open>not json\<close>, and a text with a vertical tab between two tokens).
\<close>

definition parse_sample :: "string \<Rightarrow> json option" where
  \<open>parse_sample s =
     (if s = ''{"a":1}'' \<or> s = ''{"a":'' @ [LF] @ ''1}'' then Some (JObj [(''a'', JNum 1)])
      else if s = ''[1]'' then Some (JArr [JNum 1])
      else if s = idle_text then Some idle_event
      else if s = idle_wrapped_text
        then Some (JObj [(''directory'', JStr ''/w''), (''payload'', idle_event)])
      else if s = idle_activity_text
        then Some (activity_object 0 \<lparr>sessionId = ''s1'', phase = Idle\<rparr>)
      else None)\<close>

section \<open>The relay in the words of its description\<close>

text \<open>
  What the description says of a stream fed by a sequence of reads: each read is
  normalised (when activity tracking is on), appended to the residual buffer, and the
  buffer is cut at the block separators; \<open>batches\<close> are the complete blocks each
  non-empty read releases, \<open>residual\<close> is the fragment held back after the last read.
\<close>

definition norm_chunk :: "bool \<Rightarrow> string \<Rightarrow> string" where
  "norm_chunk inject chunk = (if inject then crlf_to_lf chunk else chunk)"

fun batches :: "bool \<Rightarrow> string \<Rightarrow> string list \<Rightarrow> string list list" where
  "batches inject buf [] = []"
| "batches inject buf (chunk # chunks) =
     (if chunk = [] then batches inject buf chunks
      else butlast (split_on [LF, LF] (buf @ norm_chunk inject chunk))
           # batches inject (last (split_on [LF, LF] (buf @ norm_chunk inject chunk))) chunks)"

fun residual :: "bool \<Rightarrow> string \<Rightarrow> string list \<Rightarrow> string" where
  "residual inject buf [] = buf"
| "residual inject buf (chunk # chunks) =
     (if chunk = [] then residual inject buf chunks
      else residual inject (last (split_on [LF, LF] (buf @ norm_chunk inject chunk))) chunks)"

text \<open>The blocks sent for a batch on a stream that is not wrapped, each marked:
  \<open>True\<close> for a block of the batch, \<open>False\<close> for an injected one.\<close>

definition marked_blocks ::
  "(string \<Rightarrow> json option) \<Rightarrow> (json \<Rightarrow> string) \<Rightarrow> int \<Rightarrow> bool \<Rightarrow> string list \<Rightarrow> (bool \<times> string) list" where
  "marked_blocks parse stringify now inject blocks =
     (if inject then expand_marked parse stringify now blocks else map (Pair True) blocks)"

definition chunk_messages ::
  "(string \<Rightarrow> json option) \<Rightarrow> (json \<Rightarrow> string) \<Rightarrow> int \<Rightarrow> nat \<Rightarrow> string \<Rightarrow> bool
     \<Rightarrow> string list list \<Rightarrow> (nat \<times> message) list" where
  "chunk_messages parse stringify now e sid inject bs =
     [(e, Chunk sid (joined (map snd (marked_blocks parse stringify now inject b)))).
      b \<leftarrow> bs, b \<noteq> []]"

text \<open>A stream of the sample entry with an empty buffer: activity tracking on, not
  wrapped; and the same stream in wrapped mode with directory \<open>/w\<close>.\<close>

definition sample_stream :: relay where
  "sample_stream =
     \<lparr>r_streamId = ''sse_1_5'', r_controller = 2, r_entry = 0, shouldInjectActivity = True,
      wrapAsGlobal = False, fallbackDirectory = ''global'', sseBuffer = []\<rparr>"

definition sample_wrapped_stream :: relay where
  "sample_wrapped_stream =
     \<lparr>r_streamId = ''sse_1_5'', r_controller = 2, r_entry = 0, shouldInjectActivity = True,
      wrapAsGlobal = True, fallbackDirectory = ''/w'', sseBuffer = []\<rparr>"

text \<open>Three reads whose boundaries fall inside a block separator and inside a field
  name.\<close>

definition sample_reads :: "string list" where
  "sample_reads = [''data: x'' @ [CR, LF], [LF] @ ''da'', ''ta: y'' @ [LF, LF] @ ''z'']"

section \<open>Start of a proxy stream\<close>

text \<open>
  What the start request takes from the platform: \<open>getApiUrl()\<close>,
  \<open>getWorkingDirectory()\<close>, the path of the first workspace folder, \<open>Date.now()\<close>,
  \<open>new URL(relative, base).toString()\<close> (which throws a \<open>TypeError\<close> on text that is no
  URL) and \<open>fetch(url, {method: 'GET', headers})\<close> (which throws on a network
  failure). Of a response the relay reads \<open>ok\<close>, \<open>status\<close>, whether there is a body, and
  the headers.
\<close>

record response =
  resp_ok :: bool
  resp_status :: nat
  resp_body :: bool
  resp_headers :: "(string \<times> string) list"

datatype fetch_result = FetchThrows thrown | FetchResponse response

record platform =
  apiUrl :: "string option"
  workingDirectory :: "string option"
  workspaceFolder :: "string option"
  clock :: int
  resolveUrl :: "string \<Rightarrow> string \<Rightarrow> thrown + string"
  fetch :: "string \<Rightarrow> (string \<rightharpoonup> string) \<Rightarrow> fetch_result"

text \<open>A number in a template literal: its decimal digits.\<close>

definition digit :: "nat \<Rightarrow> char" where
  "digit n = ''0123456789'' ! n"

function decimal :: "nat \<Rightarrow> string" where
  "decimal n = (if n < 10 then [digit n] else decimal (n div 10) @ [digit (n mod 10)])"
  by pat_completeness auto
termination
  by (relation "measure id") auto

definition show_int :: "int \<Rightarrow> string" where
  "show_int i = (if i < 0 then ''-'' @ decimal (nat (- i)) else decimal (nat i))"

text \<open>\<open>s.replace(/\/+$/, '')\<close> and \<open>s.replace(/^\/+/, '')\<close>.\<close>

definition strip_trailing_slashes :: "string \<Rightarrow> string" where
  "strip_trailing_slashes s = rev (dropWhile (\<lambda>c. c = CHR ''/'') (rev s))"

definition strip_leading_slashes :: "string \<Rightarrow> string" where
  "strip_leading_slashes s = dropWhile (\<lambda>c. c = CHR ''/'') s"

text \<open>\<open>a || b\<close> for a string that may be absent.\<close>

definition or_else :: "string option \<Rightarrow> string \<Rightarrow> string" where
  "or_else a b = (case a of None \<Rightarrow> b | Some s \<Rightarrow> if s = [] then b else s)"

text \<open>The \<open>try\<close> block of \<open>_startSseProxy\<close>: the request, and for \<open>/global/event\<close> the
  fallback to \<open>/event\<close>. The result is the response and \<open>wrapAsGlobal\<close>.\<close>

definition fetchWithFallback ::
  "platform \<Rightarrow> string \<Rightarrow> string \<Rightarrow> string \<Rightarrow> (string \<rightharpoonup> string) \<Rightarrow> thrown + (response \<times> bool)" where
  "fetchWithFallback pf normalizedPath base targetUrl requestHeaders =
     (case fetch pf targetUrl requestHeaders of
        FetchThrows error \<Rightarrow> Inl error
      | FetchResponse first \<Rightarrow>
          if (\<not> resp_ok first \<or> \<not> resp_body first) \<and> normalizedPath = ''/global/event'' then
            (case resolveUrl pf ''event'' base of
               Inl error \<Rightarrow> Inl error
             | Inr fallbackUrl \<Rightarrow>
                 (case fetch pf fallbackUrl requestHeaders of
                    FetchThrows error \<Rightarrow> Inl error
                  | FetchResponse second \<Rightarrow> Inr (second, resp_ok second \<and> resp_body second)))
          else Inr (first, False))"

definition start_response ::
  "BridgeRequest \<Rightarrow> nat \<Rightarrow> (string \<rightharpoonup> string) \<Rightarrow> string option \<Rightarrow> string option \<Rightarrow> BridgeResponse" where
  "start_response msg st hs sid err =
     \<lparr>res_id = req_id msg, res_type = req_type msg, success = True, data = StartData st hs sid err\<rparr>"

text \<open>
  \<open>_startSseProxy\<close>, for the entry object \<open>e\<close>, with its locals \<open>normalizedPath\<close>, \<open>base\<close>
  and \<open>requestHeaders\<close>: a thrown value, or the response, the new state and the detached
  task of the stream when one is started. The function runs up to \<open>await fetch\<close>, is
  suspended while the request (and the fallback request) is pending, and resumes.
\<close>

definition normalizedPath :: "BridgeRequest \<Rightarrow> string" where
  "normalizedPath msg =
     (let path = get_field (payload_or_empty (req_payload msg)) ''path''
      in if typeof path = ''string'' \<and> length (trim (str_of path)) > 0
         then trim (str_of path) else ''/event'')"

definition baseUrl :: "platform \<Rightarrow> string" where
  "baseUrl pf = strip_trailing_slashes (or_else (apiUrl pf) []) @ ''/''"

definition requestHeaders :: "BridgeRequest \<Rightarrow> (string \<rightharpoonup> string)" where
  "requestHeaders msg =
     buildSseHeaders (Some (case req_headers msg of None \<Rightarrow> Map.empty | Some headers \<Rightarrow> headers))"

text \<open>
  The rest of \<open>_startSseProxy\<close> once the awaited requests have settled (the \<open>catch\<close>, and
  l.234 to the end): the 502 answer for a thrown value, the answer for a response that
  is not OK or has no body, and otherwise the registration of the stream and of its
  heartbeat timer. The function was suspended at \<open>await fetch\<close>, so this part runs on the
  state as it is when the requests have settled; \<open>sid\<close> and \<open>ctl\<close> are the stream id
  and the controller made before the suspension.
\<close>

definition startSseProxyResume ::
  "platform \<Rightarrow> BridgeRequest \<Rightarrow> nat \<Rightarrow> string \<Rightarrow> nat \<Rightarrow> thrown + (response \<times> bool) \<Rightarrow> provider
     \<Rightarrow> BridgeResponse \<times> provider \<times> relay option" where
  "startSseProxyResume pf msg e sid ctl fetched w =
     (case fetched of
        Inl error \<Rightarrow>
          (start_response msg 502 [''content-type'' \<mapsto> ''application/json'']
             None (Some (messageText error)), w, None)
      | Inr (resp, wrap) \<Rightarrow>
          if \<not> resp_ok resp \<or> \<not> resp_body resp then
            (start_response msg (resp_status resp) (collectHeaders (resp_headers resp))
               None (Some (''SSE failed: '' @ decimal (resp_status resp))), w, None)
          else
            (let inject = (normalizedPath msg = ''/event'' \<or> normalizedPath msg = ''/global/event'');
                 w2 = w\<lparr>entries := (entries w)(e := (entries w e)
                        \<lparr>sseStreams := AList.update sid ctl (sseStreams (entries w e))\<rparr>)\<rparr>;
                 w3 = (if inject
                       then w2\<lparr>intervals := insert (fresh w2) (intervals w2),
                               entries := (entries w2)(e := (entries w2 e)
                                 \<lparr>sseHeartbeats :=
                                    AList.update sid (fresh w2) (sseHeartbeats (entries w2 e))\<rparr>),
                               fresh := fresh w2 + 1\<rparr>
                       else w2)
             in (start_response msg (resp_status resp) (collectHeaders (resp_headers resp))
                   (Some sid) None,
                 w3,
                 Some \<lparr>r_streamId = sid, r_controller = ctl, r_entry = e,
                       shouldInjectActivity = inject, wrapAsGlobal = wrap,
                       fallbackDirectory =
                         or_else (workingDirectory pf) (or_else (workspaceFolder pf) ''global''),
                       sseBuffer = []\<rparr>)))"

text \<open>
  \<open>_startSseProxy\<close> run with no other step between its suspension and its resumption.
  A value thrown out of the function comes with the state the function has reached.
\<close>

definition startSseProxy ::
  "platform \<Rightarrow> BridgeRequest \<Rightarrow> nat \<Rightarrow> provider
     \<Rightarrow> (thrown \<times> provider) + (BridgeResponse \<times> provider \<times> relay option)" where
  "startSseProxy pf msg e w =
     (if or_else (apiUrl pf) [] = [] then
        Inr (start_response msg 503 [''content-type'' \<mapsto> ''application/json''] None None, w, None)
      else
        (let w1 = w\<lparr>sseCounter := sseCounter w + 1, fresh := fresh w + 1\<rparr>;
             sid = ''sse_'' @ decimal (sseCounter w + 1) @ ''_'' @ show_int (clock pf);
             ctl = fresh w
         in case resolveUrl pf (strip_leading_slashes (normalizedPath msg)) (baseUrl pf) of
              Inl error \<Rightarrow> Inl (error, w1)
            | Inr targetUrl \<Rightarrow>
                Inr (startSseProxyResume pf msg e sid ctl
                       (fetchWithFallback pf (normalizedPath msg) (baseUrl pf) targetUrl
                          (requestHeaders msg))
                       w1)))"

text \<open>A platform with a backend at \<open>http://127.0.0.1:4096\<close> that answers every request
  with 200 and a body, and a start request whose path is \<open>http://[\<close>, which \<open>new URL\<close>
  rejects.\<close>

definition sample_platform :: platform where
  "sample_platform =
     \<lparr>apiUrl = Some ''http://127.0.0.1:4096'', workingDirectory = None, workspaceFolder = None,
      clock = 5,
      resolveUrl = (\<lambda>relative base. if relative = ''http://['' then Inl (JsError ''Invalid URL'')
                                      else Inr (base @ relative)),
      fetch = (\<lambda>url headers. FetchResponse
                 \<lparr>resp_ok = True, resp_status = 200, resp_body = True, resp_headers = []\<rparr>)\<rparr>"

definition sample_start :: BridgeRequest where
  "sample_start = \<lparr>req_id = ''8'', req_type = ''api:sse:start'',
                    req_payload = Some (JObj [(''path'', JStr ''http://['')]), req_headers = None\<rparr>"

text \<open>A start request without a path and with two headers of its own; a platform
  whose \<open>fetch\<close> refuses exactly the requests that carry the caller's \<open>Accept\<close>; a
  response that is OK and has a body.\<close>

definition sample_start_headers :: BridgeRequest where
  "sample_start_headers =
     \<lparr>req_id = ''9'', req_type = ''api:sse:start'', req_payload = None,
      req_headers = Some [''Accept'' \<mapsto> ''text/plain'', ''X-Token'' \<mapsto> ''t'']\<rparr>"

definition sample_response :: response where
  "sample_response = \<lparr>resp_ok = True, resp_status = 200, resp_body = True, resp_headers = []\<rparr>"

definition sample_refusing_platform :: platform where
  "sample_refusing_platform =
     sample_platform\<lparr>fetch := (\<lambda>url headers.
        if headers ''Accept'' = Some ''text/plain'' then FetchThrows (JsError ''refused'')
        else FetchResponse sample_response)\<rparr>"

section \<open>Properties of the text primitives\<close>

lemma split_on_nonempty: "split_on sep s \<noteq> []"
  by (induction sep s rule: split_on.induct) (auto simp: cons_first_def split: list.splits)

lemma join_Cons: "join sep (a # r) = a @ (if r = [] then [] else sep @ join sep r)"
  by (cases r) auto

lemma join_cons_first: "r \<noteq> [] \<Longrightarrow> join sep (cons_first x r) = x # join sep r"
  by (cases r) (auto simp: cons_first_def join_Cons simp del: join.simps)

lemma join_Nil_cons: "r \<noteq> [] \<Longrightarrow> join sep ([] # r) = sep @ join sep r"
  by (cases r) auto

lemma prefix_drop_pred:
  "sep \<noteq> [] \<Longrightarrow> prefix sep (x # xs) \<Longrightarrow> sep @ drop (length sep - Suc 0) xs = x # xs"
  by (cases sep) (auto simp: prefix_def)

lemma join_split_on: "join sep (split_on sep s) = s"
proof (induction sep s rule: split_on.induct)
  case (1 sep)
  show ?case by simp
next
  case (2 sep x xs)
  show ?case
  proof (cases "sep \<noteq> [] \<and> prefix sep (x # xs)")
    case True
    then have "join sep (split_on sep (drop (length sep - 1) xs)) = drop (length sep - 1) xs"
      using 2 by simp
    with True show ?thesis
      by (simp add: join_Nil_cons split_on_nonempty prefix_drop_pred del: join.simps)
  next
    case False
    then have "join sep (split_on sep xs) = xs" using 2 by auto
    with False show ?thesis
      by (auto simp add: join_cons_first split_on_nonempty)
  qed
qed

lemma join_butlast_last:
  "xs \<noteq> [] \<Longrightarrow> join sep xs = concat (map (\<lambda>b. b @ sep) (butlast xs)) @ last xs"
  by (induction sep xs rule: join.induct) auto

lemma split_on_no_sep: "c \<notin> set l \<Longrightarrow> split_on [c] l = [l]"
  by (induction l) (auto simp: cons_first_def)

lemma split_on_line_append:
  "c \<notin> set l \<Longrightarrow> split_on [c] (l @ c # rest) = l # split_on [c] rest"
  by (induction l) (auto simp: cons_first_def)

lemma split_on_join_lines:
  "ls \<noteq> [] \<Longrightarrow> \<forall>l \<in> set ls. c \<notin> set l \<Longrightarrow> split_on [c] (join [c] ls) = ls"
proof (induction "[c]" ls rule: join.induct)
  case 1
  then show ?case by simp
next
  case (2 x)
  then show ?case by (simp add: split_on_no_sep)
next
  case (3 x y ys)
  then show ?case by (simp add: split_on_line_append)
qed

lemma map_filter_concat:
  "map f (filter P xs) = concat (map (\<lambda>l. if P l then [f l] else []) xs)"
  by (induction xs) auto

section \<open>Properties of the codec\<close>

lemmas sample_parse_eval =
  parse_sample_def idle_text_def idle_wrapped_text_def idle_activity_text_def

lemmas codec_eval =
  parseSseDataPayload_def payloadText_def dataLines_def startsWith_def
  strip_leading_ws_def is_ws_def trim_def cons_first_def

lemma unwrap_envelope_eq:
  "unwrap_envelope (Some parsed) =
     (if truthy (Some parsed) \<and> typeof (Some parsed) = ''object''
      then (let nestedPayload = get_field (Some parsed) ''payload''
            in if truthy nestedPayload \<and> typeof nestedPayload = ''object''
               then nestedPayload else Some parsed)
      else None)"
proof (cases parsed)
  case (JObj fs)
  show ?thesis
  proof (cases "map_of fs ''payload''")
    case None
    with JObj show ?thesis by simp
  next
    case (Some p)
    with JObj show ?thesis by (cases p) simp_all
  qed
qed simp_all

lemma dataLines_comprehension:
  "dataLines block = [strip_leading_ws (drop 5 l). l \<leftarrow> split_on [LF] block, prefix ''data:'' l]"
  unfolding dataLines_def startsWith_def
  by (rule map_filter_concat)

lemma dataLines_empty_block: "dataLines [] = []"
  by (simp add: dataLines_def startsWith_def)

lemma payloadText_nonempty: "payloadText block \<noteq> [] \<Longrightarrow> dataLines block \<noteq> [] \<and> block \<noteq> []"
  by (auto simp: payloadText_def trim_def dataLines_empty_block)

lemma decode_refines:
  "parseSseDataPayload parse block = decode_with strip_leading_ws parse block"
proof (cases "block = [] \<or> dataLines block = [] \<or> payloadText block = []")
  case True
  then show ?thesis
    using dataLines_empty_block
    by (auto simp: parseSseDataPayload_def decode_with_def Let_def payloadText_def
        dataLines_comprehension[symmetric])
next
  case False
  show ?thesis
  proof (cases "parse (payloadText block)")
    case None
    with False show ?thesis
      by (simp add: parseSseDataPayload_def decode_with_def Let_def payloadText_def
          dataLines_comprehension[symmetric])
  next
    case (Some parsed)
    with False show ?thesis
      by (simp add: parseSseDataPayload_def decode_with_def Let_def payloadText_def
          dataLines_comprehension[symmetric] unwrap_envelope_eq del: unwrap_envelope.simps)
  qed
qed

text \<open>
  C2, as stated, fails: the source removes one leading whitespace character of any kind
  (\<open>/^\s/\<close>), not only a space. On the block \<open>data: {"a":\<close>, \<open>data:<VT>1}\<close> the source
  parses \<open>{"a":<LF>1}\<close> and returns the object, where stripping at most one space leaves
  the vertical tab in the text, which is no JSON.
\<close>

theorem decode_strips_any_whitespace_counterexample:
  \<open>parseSseDataPayload parse_sample (''data: {"a":'' @ [LF] @ ''data:'' @ [CHR 0x0B] @ ''1}'')
     = Some (JObj [(''a'', JNum 1)])
   \<and> decode_with strip_one_space parse_sample
        (''data: {"a":'' @ [LF] @ ''data:'' @ [CHR 0x0B] @ ''1}'') = None\<close>
  by (simp add: codec_eval sample_parse_eval decode_with_def strip_one_space_def)

text \<open>
  C2, amended: for every block and every parser, \<open>parseSseDataPayload\<close> is the codec of
  the description with "at most one following whitespace character" in place of "at
  most one following space": it keeps exactly the lines beginning with \<open>data:\<close>, strips
  the prefix and at most one whitespace character, joins with line feeds, trims and
  parses; it returns null when there is no data line, when the text is empty, when
  parsing fails and when the value is not an object; an object-valued \<open>payload\<close> of
  the parsed object replaces it. It is a total function: it never throws. With a parser
  that reads \<open>{"a":1}\<close> as that object and rejects \<open>not json\<close>, the three examples of the
  specification hold.
\<close>

theorem decode_characterisation:
  assumes \<open>parse ''{"a":1}'' = Some (JObj [(''a'', JNum 1)])\<close>
      and \<open>parse ''not json'' = None\<close>
  shows \<open>parseSseDataPayload parse block = decode_with strip_leading_ws parse block
       \<and> parseSseDataPayload parse (''event: message'' @ [LF] @ ''data: {"a":1}'' @ [LF, LF])
           = Some (JObj [(''a'', JNum 1)])
       \<and> parseSseDataPayload parse (''no data here'' @ [LF, LF]) = None
       \<and> parseSseDataPayload parse (''data: not json'' @ [LF, LF]) = None\<close>
proof -
  have \<open>parseSseDataPayload parse (''event: message'' @ [LF] @ ''data: {"a":1}'' @ [LF, LF])
           = Some (JObj [(''a'', JNum 1)])\<close>
    using assms(1) by (simp add: codec_eval)
  moreover have \<open>parseSseDataPayload parse (''no data here'' @ [LF, LF]) = None\<close>
    by (simp add: codec_eval)
  moreover have \<open>parseSseDataPayload parse (''data: not json'' @ [LF, LF]) = None\<close>
    using assms(2) by (simp add: codec_eval)
  ultimately show ?thesis
    using decode_refines by simp
qed

theorem decode_characterisation_witness:
  \<open>parse_sample ''{"a":1}'' = Some (JObj [(''a'', JNum 1)])
   \<and> parse_sample ''not json'' = None
   \<and> parseSseDataPayload parse_sample (''data:{"a":1}'') = Some (JObj [(''a'', JNum 1)])
   \<and> parseSseDataPayload parse_sample (''event: message'' @ [LF] @ ''data: {"a":1}'' @ [LF, LF])
       = Some (JObj [(''a'', JNum 1)])
   \<and> parseSseDataPayload parse_sample (''data: not json'' @ [LF, LF]) = None\<close>
proof -
  have h1: \<open>parse_sample ''{"a":1}'' = Some (JObj [(''a'', JNum 1)])\<close>
    and h2: \<open>parse_sample ''not json'' = None\<close>
    by (simp_all add: sample_parse_eval)
  have \<open>decode_with strip_leading_ws parse_sample (''data:{"a":1}'') = Some (JObj [(''a'', JNum 1)])\<close>
    by (simp add: decode_with_def strip_leading_ws_def is_ws_def trim_def cons_first_def
        sample_parse_eval)
  then show ?thesis
    using h1 h2 decode_characterisation [OF h1 h2, of \<open>''data:{"a":1}''\<close>] by simp
qed

text \<open>
  C10: whenever the joined and trimmed data text of a block is not empty and parses as a
  JSON array, \<open>parseSseDataPayload\<close> returns that array, not null: an array passes the
  object check, and it has no \<open>payload\<close> property.
\<close>

theorem decode_returns_arrays:
  assumes "payloadText block \<noteq> []"
      and "parse (payloadText block) = Some (JArr xs)"
  shows "parseSseDataPayload parse block = Some (JArr xs)"
  using assms payloadText_nonempty [OF assms(1)] by (simp add: parseSseDataPayload_def)

theorem decode_returns_arrays_witness:
  \<open>payloadText (''data: [1]'' @ [LF, LF]) \<noteq> []
   \<and> parse_sample (payloadText (''data: [1]'' @ [LF, LF])) = Some (JArr [JNum 1])
   \<and> parseSseDataPayload parse_sample (''data: [1]'' @ [LF, LF]) = Some (JArr [JNum 1])\<close>
proof -
  have t: \<open>payloadText (''data: [1]'' @ [LF, LF]) = ''[1]''\<close>
    by (simp add: codec_eval)
  have h1: \<open>payloadText (''data: [1]'' @ [LF, LF]) \<noteq> []\<close>
    unfolding t by simp
  have h2: \<open>parse_sample (payloadText (''data: [1]'' @ [LF, LF])) = Some (JArr [JNum 1])\<close>
    unfolding t by (simp add: sample_parse_eval)
  show ?thesis
    using h1 h2 decode_returns_arrays [where parse = parse_sample, OF h1 h2] by simp
qed

section \<open>Properties of the activity deriver\<close>

lemma resolve_id_single: "resolve_id [a] = nonempty_string a"
proof (cases a)
  case None
  then show ?thesis by (simp add: nonempty_string_def)
next
  case (Some j)
  then show ?thesis by (cases j) (simp_all add: nonempty_string_def)
qed

lemma resolve_id_nullish: "resolve_id (a # b # vs) = resolve_id (nullish a b # vs)"
proof (cases a)
  case None
  then show ?thesis by (simp add: nullish_def)
next
  case (Some j)
  then show ?thesis by (cases j) (simp_all add: nullish_def)
qed

lemma resolve_id_two: "resolve_id [a, b] = nonempty_string (nullish a b)"
  by (simp only: resolve_id_nullish resolve_id_single)

lemma resolve_id_four:
  "resolve_id [a, b, c, d] = nonempty_string (nullish (nullish (nullish a b) c) d)"
  by (simp only: resolve_id_nullish resolve_id_single)

lemma typeof_string_iff: "typeof v = ''string'' \<longleftrightarrow> (\<exists>s. v = Some (JStr s))"
proof (cases v)
  case None
  then show ?thesis by simp
next
  case (Some j)
  then show ?thesis by (cases j) simp_all
qed

lemma derive_non_object:
  "(\<forall>fs. payload \<noteq> Some (JObj fs)) \<Longrightarrow> deriveSessionActivity payload = None"
proof (cases payload)
  case None
  then show ?thesis by (simp add: deriveSessionActivity_def)
next
  case (Some j)
  assume "\<forall>fs. payload \<noteq> Some (JObj fs)"
  with Some show ?thesis by (cases j) (simp_all add: deriveSessionActivity_def)
qed

lemma cooldown_case:
  "(case nonempty_string A of
      Some sid \<Rightarrow> if R then Some \<lparr>sessionId = sid, phase = Cooldown\<rparr> else None
    | None \<Rightarrow> None)
   = (if typeof A = ''string'' \<and> length (str_of A) > 0 \<and> R
      then Some \<lparr>sessionId = str_of A, phase = Cooldown\<rparr> else None)"
  by (simp add: nonempty_string_def)

lemma idle_case:
  "(case nonempty_string A of
      Some sid \<Rightarrow> Some \<lparr>sessionId = sid, phase = Idle\<rparr>
    | None \<Rightarrow> None)
   = (if typeof A = ''string'' \<and> length (str_of A) > 0
      then Some \<lparr>sessionId = str_of A, phase = Idle\<rparr> else None)"
  by (simp add: nonempty_string_def)

lemma derive_spec_typed:
  "map_of fs ''type'' = Some (JStr t) \<Longrightarrow>
   derive_spec (Some (JObj fs)) =
     (let props = map_of fs ''properties''; info = map_of fs ''info''
      in if t = ''session.status'' then
           (case resolve_id [get_field props ''sessionID'', get_field props ''sessionId''] of
              Some sid \<Rightarrow>
                (case get_field (get_field props ''status'') ''type'' of
                   Some (JStr st) \<Rightarrow>
                     Some \<lparr>sessionId = sid,
                           phase = (if st = ''busy'' \<or> st = ''retry'' then Busy else Idle)\<rparr>
                 | _ \<Rightarrow> None)
            | None \<Rightarrow> None)
         else if t = ''message.updated'' \<or> t = ''message.complete'' then
           (case resolve_id [get_field info ''sessionID'', get_field info ''sessionId'',
                             get_field props ''sessionID'', get_field props ''sessionId''] of
              Some sid \<Rightarrow>
                if get_field info ''role'' = Some (JStr ''assistant'')
                   \<and> get_field info ''finish'' = Some (JStr ''stop'')
                then Some \<lparr>sessionId = sid, phase = Cooldown\<rparr> else None
            | None \<Rightarrow> None)
         else if t = ''session.idle'' then
           (case resolve_id [get_field props ''sessionID'', get_field props ''sessionId''] of
              Some sid \<Rightarrow> Some \<lparr>sessionId = sid, phase = Idle\<rparr>
            | None \<Rightarrow> None)
         else None)"
  by (simp add: derive_spec_def)

lemma derive_object:
  "deriveSessionActivity (Some (JObj fs)) = derive_spec (Some (JObj fs))"
proof (cases "\<exists>t. map_of fs ''type'' = Some (JStr t)")
  case False
  then have "derive_spec (Some (JObj fs)) = None"
    by (cases "map_of fs ''type''"; cases "the (map_of fs ''type'')") (simp_all add: derive_spec_def)
  moreover from False have "deriveSessionActivity (Some (JObj fs)) = None"
    by (simp add: deriveSessionActivity_def)
  ultimately show ?thesis by simp
next
  case True
  then obtain t where t: "map_of fs ''type'' = Some (JStr t)" by blast
  consider (status) "t = ''session.status''" | (updated) "t = ''message.updated''"
    | (complete) "t = ''message.complete''" | (idle) "t = ''session.idle''"
    | (other) "t \<noteq> ''session.status''" "t \<noteq> ''message.updated''"
        "t \<noteq> ''message.complete''" "t \<noteq> ''session.idle''"
    by blast
  then show ?thesis
  proof cases
    case status
    let ?st = "get_field (get_field (map_of fs ''properties'') ''status'') ''type''"
    show ?thesis
    proof (cases ?st)
      case None
      with t status show ?thesis
        by (simp add: derive_spec_typed deriveSessionActivity_def Let_def resolve_id_two
            nonempty_string_def del: resolve_id.simps)
    next
      case (Some j)
      with t status show ?thesis
        by (cases j)
           (simp_all add: derive_spec_typed deriveSessionActivity_def Let_def resolve_id_two
              nonempty_string_def del: resolve_id.simps)
    qed
  next
    case updated
    with t show ?thesis
      by (simp add: derive_spec_typed deriveSessionActivity_def Let_def resolve_id_four cooldown_case
          del: resolve_id.simps)
  next
    case complete
    with t show ?thesis
      by (simp add: derive_spec_typed deriveSessionActivity_def Let_def resolve_id_four cooldown_case
          del: resolve_id.simps)
  next
    case idle
    with t show ?thesis
      by (simp add: derive_spec_typed deriveSessionActivity_def Let_def resolve_id_two idle_case
          del: resolve_id.simps)
  next
    case other
    with t show ?thesis
      by (simp add: derive_spec_typed deriveSessionActivity_def Let_def)
  qed
qed

lemma derive_refines: "deriveSessionActivity payload = derive_spec payload"
proof (cases "\<exists>fs. payload = Some (JObj fs)")
  case True
  then show ?thesis using derive_object by auto
next
  case False
  then have "derive_spec payload = None"
    by (cases payload; cases "the payload") (simp_all add: derive_spec_def)
  with False show ?thesis using derive_non_object by simp
qed


text \<open>
  C3: on every payload (or null) \<open>deriveSessionActivity\<close> returns exactly what the table
  says: for \<open>session.status\<close> with a string \<open>properties.status.type\<close> and a non-empty
  string session id resolved from \<open>properties.sessionID\<close>, \<open>properties.sessionId\<close>, the
  phase \<open>busy\<close> when the status type is \<open>busy\<close> or \<open>retry\<close> and \<open>idle\<close> otherwise; for
  \<open>message.updated\<close> and \<open>message.complete\<close> with role \<open>assistant\<close>, finish \<open>stop\<close> and
  a session id resolved from \<open>info\<close> and then \<open>properties\<close>, the phase \<open>cooldown\<close>; for
  \<open>session.idle\<close> with a session id, the phase \<open>idle\<close>; and null in every other case.
  The examples of the specification follow.
\<close>

theorem derive_characterisation:
  "deriveSessionActivity payload = derive_spec payload
   \<and> deriveSessionActivity None = None
   \<and> deriveSessionActivity (Some (JObj [(''type'', JStr ''session.status''),
        (''properties'', JObj [(''sessionID'', JStr ''s1''), (''status'', JObj [(''type'', JStr ''busy'')])])]))
       = Some \<lparr>sessionId = ''s1'', phase = Busy\<rparr>
   \<and> deriveSessionActivity (Some (JObj [(''type'', JStr ''session.status''),
        (''properties'', JObj [(''sessionID'', JStr ''s1''), (''status'', JObj [(''type'', JStr ''idle'')])])]))
       = Some \<lparr>sessionId = ''s1'', phase = Idle\<rparr>
   \<and> deriveSessionActivity (Some (JObj [(''type'', JStr ''message.complete''),
        (''info'', JObj [(''sessionID'', JStr ''s2''), (''role'', JStr ''assistant''), (''finish'', JStr ''stop'')])]))
       = Some \<lparr>sessionId = ''s2'', phase = Cooldown\<rparr>
   \<and> deriveSessionActivity (Some (JObj [(''type'', JStr ''message.complete''),
        (''info'', JObj [(''sessionID'', JStr ''s2''), (''role'', JStr ''user''), (''finish'', JStr ''stop'')])]))
       = None"
proof -
  have "deriveSessionActivity None = None"
    by (simp add: deriveSessionActivity_def)
  moreover have "deriveSessionActivity (Some (JObj [(''type'', JStr ''session.status''),
        (''properties'', JObj [(''sessionID'', JStr ''s1''), (''status'', JObj [(''type'', JStr ''busy'')])])]))
       = Some \<lparr>sessionId = ''s1'', phase = Busy\<rparr>"
    by (simp add: deriveSessionActivity_def nullish_def)
  moreover have "deriveSessionActivity (Some (JObj [(''type'', JStr ''session.status''),
        (''properties'', JObj [(''sessionID'', JStr ''s1''), (''status'', JObj [(''type'', JStr ''idle'')])])]))
       = Some \<lparr>sessionId = ''s1'', phase = Idle\<rparr>"
    by (simp add: deriveSessionActivity_def nullish_def)
  moreover have "deriveSessionActivity (Some (JObj [(''type'', JStr ''message.complete''),
        (''info'', JObj [(''sessionID'', JStr ''s2''), (''role'', JStr ''assistant''), (''finish'', JStr ''stop'')])]))
       = Some \<lparr>sessionId = ''s2'', phase = Cooldown\<rparr>"
    by (simp add: deriveSessionActivity_def nullish_def)
  moreover have "deriveSessionActivity (Some (JObj [(''type'', JStr ''message.complete''),
        (''info'', JObj [(''sessionID'', JStr ''s2''), (''role'', JStr ''user''), (''finish'', JStr ''stop'')])]))
       = None"
    by (simp add: deriveSessionActivity_def nullish_def)
  ultimately show ?thesis
    using derive_refines by simp
qed

theorem derive_characterisation_witness:
  "deriveSessionActivity (Some (JObj [(''type'', JStr ''session.idle''),
        (''properties'', JObj [(''sessionID'', JNull), (''sessionId'', JStr ''s3'')])]))
     = Some \<lparr>sessionId = ''s3'', phase = Idle\<rparr>
   \<and> deriveSessionActivity (Some (JObj [(''type'', JStr ''session.status''),
        (''properties'', JObj [(''sessionID'', JStr ''s1''), (''status'', JObj [(''type'', JNum 5)])])]))
     = None"
  using derive_characterisation
          [of "Some (JObj [(''type'', JStr ''session.idle''),
                 (''properties'', JObj [(''sessionID'', JNull), (''sessionId'', JStr ''s3'')])])"]
        derive_characterisation
          [of "Some (JObj [(''type'', JStr ''session.status''),
                 (''properties'', JObj [(''sessionID'', JStr ''s1''), (''status'', JObj [(''type'', JNum 5)])])])"]
  by (simp add: derive_spec_def)

section \<open>Properties of the registry and the control requests\<close>

lemma map_of_delete_same: "map_of (AList.delete k al) k = None"
  by (simp add: delete_conv')

lemma stop_response:
  "fst (stopSseProxy msg e w) =
     \<lparr>res_id = req_id msg, res_type = req_type msg, success = True, data = StopData True\<rparr>"
  by (simp add: stopSseProxy_def Let_def)

lemma stop_inactive:
  assumes "\<not> (typeof (get_field (payload_or_empty (req_payload msg)) ''streamId'') = ''string''
              \<and> length (str_of (get_field (payload_or_empty (req_payload msg)) ''streamId'')) > 0)"
  shows "snd (stopSseProxy msg e w) = w"
  using assms by (auto simp add: stopSseProxy_def Let_def)

lemma stop_unmatched:
  assumes "map_of (sseStreams (entries w e)) (str_of (get_field (payload_or_empty (req_payload msg)) ''streamId'')) = None"
      and "map_of (sseHeartbeats (entries w e)) (str_of (get_field (payload_or_empty (req_payload msg)) ''streamId'')) = None"
  shows "snd (stopSseProxy msg e w) = w"
  using assms by (simp add: stopSseProxy_def Let_def)

lemma stop_streams_after:
  assumes "get_field (payload_or_empty (req_payload msg)) ''streamId'' = Some (JStr sid)" and "sid \<noteq> []"
  shows "map_of (sseStreams (entries (snd (stopSseProxy msg e w)) e)) sid = None
       \<and> map_of (sseHeartbeats (entries (snd (stopSseProxy msg e w)) e)) sid = None"
  using assms
  by (cases "map_of (sseStreams (entries w e)) sid"; cases "map_of (sseHeartbeats (entries w e)) sid")
     (simp_all add: stopSseProxy_def Let_def map_of_delete_same)

lemma stop_aborts:
  assumes "get_field (payload_or_empty (req_payload msg)) ''streamId'' = Some (JStr sid)" and "sid \<noteq> []"
      and "map_of (sseStreams (entries w e)) sid = Some controller"
  shows "controller \<in> aborted (snd (stopSseProxy msg e w))"
  using assms
  by (cases "map_of (sseHeartbeats (entries w e)) sid") (simp_all add: stopSseProxy_def Let_def)

lemma stop_clears:
  assumes "get_field (payload_or_empty (req_payload msg)) ''streamId'' = Some (JStr sid)" and "sid \<noteq> []"
      and "map_of (sseHeartbeats (entries w e)) sid = Some heartbeat"
  shows "heartbeat \<notin> intervals (snd (stopSseProxy msg e w))"
  using assms
  by (cases "map_of (sseStreams (entries w e)) sid") (simp_all add: stopSseProxy_def Let_def)

lemma stop_twice: "snd (stopSseProxy msg e (snd (stopSseProxy msg e w))) = snd (stopSseProxy msg e w)"
proof (cases "typeof (get_field (payload_or_empty (req_payload msg)) ''streamId'') = ''string''
              \<and> length (str_of (get_field (payload_or_empty (req_payload msg)) ''streamId'')) > 0")
  case False
  then show ?thesis by (simp add: stop_inactive)
next
  case True
  then obtain sid where sid: "get_field (payload_or_empty (req_payload msg)) ''streamId'' = Some (JStr sid)"
    by (auto simp: typeof_string_iff)
  with True have ne: "sid \<noteq> []" by simp
  show ?thesis
    using stop_streams_after [OF sid ne, of e w] sid
    by (intro stop_unmatched) simp_all
qed

text \<open>
  C7: for every stop request, entry and state, the handler returns the success response
  with data \<open>{stopped: true}\<close> (it is a total function, nothing is thrown), and a
  second stop returns the same response and leaves the state as the first left it.
  When the stream id is a non-empty string: a matching active stream has its controller
  aborted and is removed from the stream map, and a matching heartbeat timer is cleared
  and removed from the timer map. When the id is absent, not a string, empty, or matches
  nothing, the state is unchanged.
\<close>

theorem stop_idempotent_total:
  "fst (stopSseProxy msg e w) =
     \<lparr>res_id = req_id msg, res_type = req_type msg, success = True, data = StopData True\<rparr>
   \<and> stopSseProxy msg e (snd (stopSseProxy msg e w)) = stopSseProxy msg e w
   \<and> (\<forall>sid. get_field (payload_or_empty (req_payload msg)) ''streamId'' = Some (JStr sid) \<and> sid \<noteq> [] \<longrightarrow>
        map_of (sseStreams (entries (snd (stopSseProxy msg e w)) e)) sid = None
        \<and> map_of (sseHeartbeats (entries (snd (stopSseProxy msg e w)) e)) sid = None
        \<and> (\<forall>controller. map_of (sseStreams (entries w e)) sid = Some controller
              \<longrightarrow> controller \<in> aborted (snd (stopSseProxy msg e w)))
        \<and> (\<forall>heartbeat. map_of (sseHeartbeats (entries w e)) sid = Some heartbeat
              \<longrightarrow> heartbeat \<notin> intervals (snd (stopSseProxy msg e w)))
        \<and> (map_of (sseStreams (entries w e)) sid = None \<and> map_of (sseHeartbeats (entries w e)) sid = None
              \<longrightarrow> snd (stopSseProxy msg e w) = w))
   \<and> ((\<forall>sid. get_field (payload_or_empty (req_payload msg)) ''streamId'' = Some (JStr sid) \<longrightarrow> sid = [])
        \<longrightarrow> snd (stopSseProxy msg e w) = w)"
proof -
  have twice: "stopSseProxy msg e (snd (stopSseProxy msg e w)) = stopSseProxy msg e w"
    by (rule prod_eqI) (simp_all add: stop_response stop_twice)
  have unmatched: "snd (stopSseProxy msg e w) = w"
    if "get_field (payload_or_empty (req_payload msg)) ''streamId'' = Some (JStr sid)"
      "map_of (sseStreams (entries w e)) sid = None" "map_of (sseHeartbeats (entries w e)) sid = None"
    for sid
    using that by (intro stop_unmatched) simp_all
  have inactive: "snd (stopSseProxy msg e w) = w"
    if "\<forall>sid. get_field (payload_or_empty (req_payload msg)) ''streamId'' = Some (JStr sid) \<longrightarrow> sid = []"
    using that by (intro stop_inactive) (auto simp: typeof_string_iff)
  show ?thesis
    using stop_response twice stop_streams_after stop_aborts stop_clears unmatched inactive
    by blast
qed

theorem stop_idempotent_total_witness:
  "get_field (payload_or_empty (req_payload sample_stop)) ''streamId'' = Some (JStr ''sse_1_5'')
   \<and> map_of (sseStreams (entries sample_provider 0)) ''sse_1_5'' = Some 2
   \<and> map_of (sseHeartbeats (entries sample_provider 0)) ''sse_1_5'' = Some 3
   \<and> 2 \<in> aborted (snd (stopSseProxy sample_stop 0 sample_provider))
   \<and> 3 \<notin> intervals (snd (stopSseProxy sample_stop 0 sample_provider))
   \<and> map_of (sseStreams (entries (snd (stopSseProxy sample_stop 0 sample_provider)) 0)) ''sse_1_5'' = None"
proof -
  have h: "get_field (payload_or_empty (req_payload sample_stop)) ''streamId'' = Some (JStr ''sse_1_5'')"
    "map_of (sseStreams (entries sample_provider 0)) ''sse_1_5'' = Some 2"
    "map_of (sseHeartbeats (entries sample_provider 0)) ''sse_1_5'' = Some 3"
    "''sse_1_5'' \<noteq> []"
    by (simp_all add: sample_stop_def sample_provider_def payload_or_empty_def)
  from stop_idempotent_total [of sample_stop 0 sample_provider] h show ?thesis
    by blast
qed

section \<open>Properties of the heartbeat and of panel disposal\<close>

lemma tick_aborted: "c \<in> aborted w \<Longrightarrow> heartbeatTick stringify now c e sid w = w"
  by (simp add: heartbeatTick_def)

lemma cleanup_posted: "posted (relayCleanup r w) = posted w"
  by (simp add: relayCleanup_def Let_def split: option.splits)

lemma error_aborted_posts_nothing:
  "r_controller r \<in> aborted w \<Longrightarrow> posted (snd (relayError error (r, w))) = posted w"
  by (simp add: relayError_def Let_def cleanup_posted)

text \<open>
  C9: a tick of the heartbeat timer of a stream whose controller is aborted changes
  nothing: it posts no message, and being a total function it raises no error. A tick
  on a stream that is not aborted posts exactly one message to the panel, a chunk of
  its own that holds the heartbeat block and its terminator, and changes nothing else;
  the buffer of the relay is no part of what a tick reads or writes. After a stop
  request for the stream, and after disposal of its panel, the controller is aborted.
\<close>

theorem heartbeat_tick_after_cancel:
  "(c \<in> aborted w \<longrightarrow> heartbeatTick stringify now c e sid w = w)
   \<and> (c \<notin> aborted w \<longrightarrow>
        heartbeatTick stringify now c e sid w =
          w\<lparr>posted := posted w @ [(e, Chunk sid (buildHeartbeatEventBlock stringify now @ [LF, LF]))]\<rparr>)
   \<and> (get_field (payload_or_empty (req_payload msg)) ''streamId'' = Some (JStr sid) \<and> sid \<noteq> []
        \<and> map_of (sseStreams (entries w e)) sid = Some c \<longrightarrow>
        heartbeatTick stringify now c e sid (snd (stopSseProxy msg e w)) = snd (stopSseProxy msg e w))
   \<and> (map_of (panels w) panelId = Some e \<and> map_of (sseStreams (entries w e)) sid = Some c \<longrightarrow>
        heartbeatTick stringify now c e sid (disposePanel panelId w) = disposePanel panelId w)"
proof -
  have stop: "heartbeatTick stringify now c e sid (snd (stopSseProxy msg e w)) = snd (stopSseProxy msg e w)"
    if "get_field (payload_or_empty (req_payload msg)) ''streamId'' = Some (JStr sid)" "sid \<noteq> []"
       "map_of (sseStreams (entries w e)) sid = Some c"
    using stop_aborts [OF that] by (rule tick_aborted)
  have dispose: "heartbeatTick stringify now c e sid (disposePanel panelId w) = disposePanel panelId w"
    if "map_of (panels w) panelId = Some e" "map_of (sseStreams (entries w e)) sid = Some c"
  proof -
    from that(2) have "(sid, c) \<in> set (sseStreams (entries w e))" by (rule map_of_SomeD)
    then have "c \<in> snd ` set (sseStreams (entries w e))" by force
    with that(1) have "c \<in> aborted (disposePanel panelId w)"
      by (simp add: disposePanel_def)
    then show ?thesis by (rule tick_aborted)
  qed
  show ?thesis
    using stop dispose by (simp add: heartbeatTick_def postMessage_def)
qed

theorem heartbeat_tick_after_cancel_witness:
  "heartbeatTick stringify_sample 0 2 0 ''sse_1_5'' (snd (stopSseProxy sample_stop 0 sample_provider))
     = snd (stopSseProxy sample_stop 0 sample_provider)
   \<and> heartbeatTick stringify_sample 0 2 0 ''sse_1_5'' (disposePanel ''p1'' sample_provider)
     = disposePanel ''p1'' sample_provider
   \<and> posted (heartbeatTick stringify_sample 0 2 0 ''sse_1_5'' sample_provider)
     = [(0, Chunk ''sse_1_5'' (buildHeartbeatEventBlock stringify_sample 0 @ [LF, LF]))]"
proof -
  have h: "get_field (payload_or_empty (req_payload sample_stop)) ''streamId'' = Some (JStr ''sse_1_5'')"
    "map_of (sseStreams (entries sample_provider 0)) ''sse_1_5'' = Some 2"
    "map_of (panels sample_provider) ''p1'' = Some 0"
    "''sse_1_5'' \<noteq> []" "2 \<notin> aborted sample_provider" "posted sample_provider = []"
    by (simp_all add: sample_stop_def sample_provider_def payload_or_empty_def)
  from heartbeat_tick_after_cancel
         [of 2 sample_provider stringify_sample 0 0 "''sse_1_5''" sample_stop "''p1''"] h
  show ?thesis by simp
qed

text \<open>
  Disposal of a registered panel, whatever streams and timers it owns: the controller
  of every owned stream is aborted, every owned heartbeat timer is cleared, both maps of
  the entry are left empty and the panel leaves the registry, in one step and without
  posting anything. Afterwards a tick of an owned stream's heartbeat posts nothing, and
  the task of an owned stream whose pending read rejects posts neither a chunk nor an
  end message. Disposing an unregistered panel changes nothing.
\<close>

lemma dispose_state:
  "(map_of (panels w) panelId = None \<longrightarrow> disposePanel panelId w = w)
   \<and> (map_of (panels w) panelId = Some e \<longrightarrow>
        snd ` set (sseStreams (entries w e)) \<subseteq> aborted (disposePanel panelId w)
        \<and> snd ` set (sseHeartbeats (entries w e)) \<inter> intervals (disposePanel panelId w) = {}
        \<and> sseStreams (entries (disposePanel panelId w) e) = []
        \<and> sseHeartbeats (entries (disposePanel panelId w) e) = []
        \<and> map_of (panels (disposePanel panelId w)) panelId = None
        \<and> posted (disposePanel panelId w) = posted w
        \<and> (\<forall>sid c. (sid, c) \<in> set (sseStreams (entries w e)) \<longrightarrow>
              posted (heartbeatTick stringify now c e sid (disposePanel panelId w)) = posted w
              \<and> (\<forall>r error. r_controller r = c \<longrightarrow>
                    posted (snd (relayError error (r, disposePanel panelId w))) = posted w)))"
proof -
  have reg: "snd ` set (sseStreams (entries w e)) \<subseteq> aborted (disposePanel panelId w)
        \<and> snd ` set (sseHeartbeats (entries w e)) \<inter> intervals (disposePanel panelId w) = {}
        \<and> sseStreams (entries (disposePanel panelId w) e) = []
        \<and> sseHeartbeats (entries (disposePanel panelId w) e) = []
        \<and> map_of (panels (disposePanel panelId w)) panelId = None
        \<and> posted (disposePanel panelId w) = posted w"
    if "map_of (panels w) panelId = Some e"
    using that by (auto simp: disposePanel_def delete_conv')
  have after: "posted (heartbeatTick stringify now c e sid (disposePanel panelId w)) = posted w
        \<and> (\<forall>r error. r_controller r = c \<longrightarrow>
              posted (snd (relayError error (r, disposePanel panelId w))) = posted w)"
    if "map_of (panels w) panelId = Some e" "(sid, c) \<in> set (sseStreams (entries w e))" for sid c
  proof -
    from that(2) have "c \<in> snd ` set (sseStreams (entries w e))" by force
    with reg [OF that(1)] have c: "c \<in> aborted (disposePanel panelId w)" by blast
    from reg [OF that(1)] have p: "posted (disposePanel panelId w) = posted w" by simp
    show ?thesis
      using c p by (simp add: tick_aborted error_aborted_posts_nothing)
  qed
  have unreg: "disposePanel panelId w = w" if "map_of (panels w) panelId = None"
    using that by (simp add: disposePanel_def)
  show ?thesis
    using reg after unreg by blast
qed

lemma dispose_state_example:
  "map_of (panels sample_provider) ''p1'' = Some 0
   \<and> {2, 4} \<subseteq> aborted (disposePanel ''p1'' sample_provider)
   \<and> 3 \<notin> intervals (disposePanel ''p1'' sample_provider)
   \<and> sseStreams (entries (disposePanel ''p1'' sample_provider) 0) = []
   \<and> panels (disposePanel ''p1'' sample_provider) = []
   \<and> posted (snd (relayError (JsError ''aborted'') (sample_relay, disposePanel ''p1'' sample_provider))) = []"
proof -
  have h: "map_of (panels sample_provider) ''p1'' = Some 0"
    "(''sse_1_5'', 2) \<in> set (sseStreams (entries sample_provider 0))"
    "r_controller sample_relay = 2" "posted sample_provider = []"
    "snd ` set (sseStreams (entries sample_provider 0)) = {2, 4}"
    "snd ` set (sseHeartbeats (entries sample_provider 0)) = {3}"
    by (simp_all add: sample_provider_def sample_relay_def)
  have p: "panels (disposePanel ''p1'' sample_provider) = []"
    by (simp add: disposePanel_def sample_provider_def)
  from dispose_state [of sample_provider "''p1''" 0] h p show ?thesis
    by (auto simp del: insert_subset)
qed

section \<open>Properties of the global-scope wrapper\<close>

lemma split_on_char_Cons:
  "split_on [c] (x # xs) = (if x = c then [] # split_on [c] xs else cons_first x (split_on [c] xs))"
  by simp

lemma split_on_lines_no_sep: "l \<in> set (split_on [c] s) \<Longrightarrow> c \<notin> set l"
proof (induction s arbitrary: l)
  case Nil
  then show ?case by simp
next
  case (Cons x xs)
  show ?case
  proof (cases "x = c")
    case True
    with Cons show ?thesis by (auto simp: split_on_char_Cons simp del: split_on.simps)
  next
    case False
    obtain y ys where r: "split_on [c] xs = y # ys"
      using split_on_nonempty [of "[c]" xs] by (cases "split_on [c] xs") auto
    with False Cons.prems have "l = x # y \<or> l \<in> set ys"
      by (auto simp: split_on_char_Cons cons_first_def simp del: split_on.simps)
    with Cons.IH r False show ?thesis by auto
  qed
qed

lemma wrap_lines:
  assumes "LF \<notin> set (stringify (wrappedPayload directory (parseSseDataPayload parse block)))"
  shows "split_on [LF] (wrapSseBlock parse stringify directory block) =
           filter (\<lambda>line. \<not> startsWith line ''data:'') (split_on [LF] block)
           @ [''data: '' @ stringify (wrappedPayload directory (parseSseDataPayload parse block))]"
proof -
  let ?ls = "filter (\<lambda>line. \<not> startsWith line ''data:'') (split_on [LF] block)
           @ [''data: '' @ stringify (wrappedPayload directory (parseSseDataPayload parse block))]"
  have "\<forall>l \<in> set ?ls. LF \<notin> set l"
    using assms split_on_lines_no_sep [of _ LF block] by auto
  moreover have "?ls \<noteq> []" by simp
  ultimately have "split_on [LF] (join [LF] ?ls) = ?ls"
    by (rule split_on_join_lines [rotated])
  then show ?thesis by (simp add: wrapSseBlock_def Let_def)
qed

lemma wrap_dataLines:
  assumes "LF \<notin> set (stringify (wrappedPayload directory (parseSseDataPayload parse block)))"
  shows "dataLines (wrapSseBlock parse stringify directory block) =
           [stringify (wrappedPayload directory (parseSseDataPayload parse block))]"
  using wrap_lines [where stringify = stringify and parse = parse, OF assms]
  by (simp add: dataLines_def startsWith_def strip_leading_ws_def is_ws_def)

lemma wrappedPayload_envelope: "is_envelope directory (wrappedPayload directory payload)"
  by (simp add: wrappedPayload_def split: option.splits)

lemma wrappedPayload_cases:
  "wrappedPayload directory (parseSseDataPayload parse block) =
     JObj [(''directory'', JStr directory),
           (''payload'', case parseSseDataPayload parse block of None \<Rightarrow> JNull | Some p \<Rightarrow> p)]"
proof (cases "parseSseDataPayload parse block")
  case None
  then show ?thesis by (simp add: wrappedPayload_def)
next
  case (Some p)
  then have "unwrap_envelope (parse (trim (join [LF]
       [strip_leading_ws (drop 5 l). l \<leftarrow> split_on [LF] block, prefix ''data:'' l]))) = Some p"
    by (simp add: decode_refines decode_with_def Let_def split: if_splits)
  then have "truthy (Some p)"
    by (cases "parse (trim (join [LF]
       [strip_leading_ws (drop 5 l). l \<leftarrow> split_on [LF] block, prefix ''data:'' l]))"
        rule: unwrap_envelope.cases) (auto split: option.splits json.splits)
  with Some show ?thesis by (simp add: wrappedPayload_def)
qed

lemma expand_marked_erase:
  "map snd (expand_marked parse stringify now blocks) = expandSseBlocksWithActivity parse stringify now blocks
   \<and> map snd (filter fst (expand_marked parse stringify now blocks)) = blocks"
  by (induction blocks) (auto split: option.splits)

lemma wrap_payloadText:
  assumes "LF \<notin> set (stringify (wrappedPayload directory (parseSseDataPayload parse block)))"
  shows "payloadText (wrapSseBlock parse stringify directory block) =
           trim (stringify (wrappedPayload directory (parseSseDataPayload parse block)))"
  using wrap_dataLines [where stringify = stringify and parse = parse, OF assms]
  by (simp add: payloadText_def)

text \<open>
  C4, as stated, fails in its last part: a wrapped stream is an activity-tracking
  stream, and the activity block injected after a wrapped block is not wrapped. For the
  \<open>session.idle\<close> event of session \<open>s1\<close> on a wrapped stream with directory \<open>/w\<close>, two
  blocks are sent; the data of the second parses to the activity object, which is not
  of the shape \<open>{directory, payload}\<close>.
\<close>

theorem wrapped_stream_activity_block_counterexample:
  "outboundBlocks parse_sample stringify_sample 0
      \<lparr>r_streamId = ''sse_1_5'', r_controller = 2, r_entry = 0, shouldInjectActivity = True,
       wrapAsGlobal = True, fallbackDirectory = ''/w'', sseBuffer = []\<rparr>
      [''data: '' @ idle_text]
     = [''data: '' @ idle_wrapped_text, ''event: message'' @ [LF] @ ''data: '' @ idle_activity_text]
   \<and> parse_sample (payloadText (''event: message'' @ [LF] @ ''data: '' @ idle_activity_text))
     = Some (activity_object 0 \<lparr>sessionId = ''s1'', phase = Idle\<rparr>)
   \<and> \<not> is_envelope ''/w'' (activity_object 0 \<lparr>sessionId = ''s1'', phase = Idle\<rparr>)"
proof -
  have t: "payloadText (''data: '' @ idle_text) = idle_text" "dataLines (''data: '' @ idle_text) \<noteq> []"
    by (simp_all add: idle_text_def payloadText_def dataLines_def startsWith_def
      strip_leading_ws_def is_ws_def trim_def cons_first_def)
  have ne: "idle_text \<noteq> []" by (simp add: idle_text_def)
  have p: "parse_sample idle_text = Some idle_event"
    by (simp add: parse_sample_def idle_text_def)
  have d: "parseSseDataPayload parse_sample (''data: '' @ idle_text) = Some idle_event"
    using t ne p by (simp add: parseSseDataPayload_def) (simp add: idle_event_def)
  have w: "wrapSseBlock parse_sample stringify_sample ''/w'' (''data: '' @ idle_text)
             = ''data: '' @ idle_wrapped_text"
    unfolding wrapSseBlock_def d Let_def
    by (simp add: wrappedPayload_def stringify_sample_def) 
       (simp add: idle_text_def startsWith_def cons_first_def idle_event_def)
  have t2: "payloadText (''data: '' @ idle_wrapped_text) = idle_wrapped_text"
    "dataLines (''data: '' @ idle_wrapped_text) \<noteq> []"
    by (simp_all add: idle_wrapped_text_def payloadText_def dataLines_def startsWith_def
      strip_leading_ws_def is_ws_def trim_def cons_first_def)
  have ne2: "idle_wrapped_text \<noteq> []" by (simp add: idle_wrapped_text_def)
  have p2: "parse_sample idle_wrapped_text = Some (JObj [(''directory'', JStr ''/w''), (''payload'', idle_event)])"
    by (simp add: parse_sample_def idle_wrapped_text_def idle_text_def)
  have d2: "parseSseDataPayload parse_sample (''data: '' @ idle_wrapped_text) = Some idle_event"
    using t2 ne2 p2 by (simp add: parseSseDataPayload_def) (simp add: idle_event_def)
  have a: "deriveSessionActivity (Some idle_event) = Some \<lparr>sessionId = ''s1'', phase = Idle\<rparr>"
    by (simp add: deriveSessionActivity_def idle_event_def nullish_def)
  have o: "outboundBlocks parse_sample stringify_sample 0
      \<lparr>r_streamId = ''sse_1_5'', r_controller = 2, r_entry = 0, shouldInjectActivity = True,
       wrapAsGlobal = True, fallbackDirectory = ''/w'', sseBuffer = []\<rparr>
      [''data: '' @ idle_text]
     = [''data: '' @ idle_wrapped_text, ''event: message'' @ [LF] @ ''data: '' @ idle_activity_text]"
    using w d2 a
    by (simp add: outboundBlocks_def wrapSseBlocksAsGlobal_def buildActivityEventBlock_def
        stringify_sample_def)
       (simp add: activity_object_def idle_event_def)
  have t3: "payloadText (''event: message'' @ [LF] @ ''data: '' @ idle_activity_text) = idle_activity_text"
    by (simp add: idle_activity_text_def payloadText_def dataLines_def startsWith_def
      strip_leading_ws_def is_ws_def trim_def cons_first_def)
  have p3: "parse_sample idle_activity_text = Some (activity_object 0 \<lparr>sessionId = ''s1'', phase = Idle\<rparr>)"
    by (simp add: parse_sample_def idle_activity_text_def idle_text_def idle_wrapped_text_def)
  show ?thesis
    unfolding t3 using o p3 by (simp add: activity_object_def)
qed

text \<open>
  C4, amended: for every list of blocks and every directory, with a serializer that
  emits no line feed (as \<open>JSON.stringify\<close> without indentation), the wrapper gives one
  block per input block, in the same order; the lines of each output block are the
  lines of its input block that do not begin with \<open>data:\<close>, unchanged and in order,
  followed by exactly one data line, which serializes \<open>{directory, payload}\<close> with the
  decoded payload of the input block, or null when decoding fails. So the data of a
  wrapped block is that serialization, and where the parser reads it back, it parses to
  a value of shape \<open>{directory, payload}\<close>. On a wrapped stream the blocks sent are the
  wrapped blocks, in order, each possibly followed by an injected activity block, which
  is not wrapped.
\<close>

theorem wrap_blocks_shape:
  assumes "\<forall>block \<in> set blocks.
             LF \<notin> set (stringify (wrappedPayload directory (parseSseDataPayload parse block)))"
  shows "length (wrapSseBlocksAsGlobal parse stringify blocks directory) = length blocks
       \<and> (\<forall>i < length blocks.
            (let out = wrapSseBlocksAsGlobal parse stringify blocks directory ! i;
                 envelope = JObj [(''directory'', JStr directory),
                                  (''payload'', case parseSseDataPayload parse (blocks ! i) of
                                                  None \<Rightarrow> JNull | Some p \<Rightarrow> p)]
             in split_on [LF] out =
                  filter (\<lambda>line. \<not> startsWith line ''data:'') (split_on [LF] (blocks ! i))
                  @ [''data: '' @ stringify envelope]
                \<and> dataLines out = [stringify envelope]
                \<and> payloadText out = trim (stringify envelope)
                \<and> is_envelope directory envelope
                \<and> (parse (trim (stringify envelope)) = Some envelope
                      \<longrightarrow> parse (payloadText out) = Some envelope)))
       \<and> (wrapAsGlobal r \<and> shouldInjectActivity r \<and> fallbackDirectory r = directory \<longrightarrow>
            outboundBlocks parse stringify now r blocks =
              map snd (expand_marked parse stringify now (wrapSseBlocksAsGlobal parse stringify blocks directory))
            \<and> map snd (filter fst
                 (expand_marked parse stringify now (wrapSseBlocksAsGlobal parse stringify blocks directory)))
               = wrapSseBlocksAsGlobal parse stringify blocks directory)"
proof -
  have len: "length (wrapSseBlocksAsGlobal parse stringify blocks directory) = length blocks"
    by (simp add: wrapSseBlocksAsGlobal_def)
  have each: "(let out = wrapSseBlocksAsGlobal parse stringify blocks directory ! i;
                 envelope = JObj [(''directory'', JStr directory),
                                  (''payload'', case parseSseDataPayload parse (blocks ! i) of
                                                  None \<Rightarrow> JNull | Some p \<Rightarrow> p)]
             in split_on [LF] out =
                  filter (\<lambda>line. \<not> startsWith line ''data:'') (split_on [LF] (blocks ! i))
                  @ [''data: '' @ stringify envelope]
                \<and> dataLines out = [stringify envelope]
                \<and> payloadText out = trim (stringify envelope)
                \<and> is_envelope directory envelope
                \<and> (parse (trim (stringify envelope)) = Some envelope
                      \<longrightarrow> parse (payloadText out) = Some envelope))"
    if i: "i < length blocks" for i
  proof -
    let ?b = "blocks ! i"
    from i have "?b \<in> set blocks" by simp
    with assms have nl: "LF \<notin> set (stringify (wrappedPayload directory (parseSseDataPayload parse ?b)))"
      by blast
    have out: "wrapSseBlocksAsGlobal parse stringify blocks directory ! i
                 = wrapSseBlock parse stringify directory ?b"
      using i by (simp add: wrapSseBlocksAsGlobal_def)
    show ?thesis
      unfolding Let_def out wrappedPayload_cases [symmetric]
      using wrap_lines [where stringify = stringify and parse = parse, OF nl]
            wrap_dataLines [where stringify = stringify and parse = parse, OF nl]
            wrap_payloadText [where stringify = stringify and parse = parse, OF nl]
            wrappedPayload_envelope [of directory "parseSseDataPayload parse ?b"]
      by simp
  qed
  have stream: "outboundBlocks parse stringify now r blocks =
              map snd (expand_marked parse stringify now (wrapSseBlocksAsGlobal parse stringify blocks directory))"
    if "wrapAsGlobal r" "shouldInjectActivity r" "fallbackDirectory r = directory"
    using that by (simp add: outboundBlocks_def expand_marked_erase)
  show ?thesis
    using len each stream expand_marked_erase by blast
qed

theorem wrap_blocks_shape_witness:
  "LF \<notin> set (stringify_sample (wrappedPayload ''/w''
                  (parseSseDataPayload parse_sample (''data: '' @ idle_text))))
   \<and> LF \<notin> set (stringify_sample (wrappedPayload ''/w''
                  (parseSseDataPayload parse_sample ''event: x'')))
   \<and> dataLines (wrapSseBlocksAsGlobal parse_sample stringify_sample
                  [''data: '' @ idle_text, ''event: x''] ''/w'' ! 0) = [idle_wrapped_text]
   \<and> split_on [LF] (wrapSseBlocksAsGlobal parse_sample stringify_sample
                  [''data: '' @ idle_text, ''event: x''] ''/w'' ! 1)
       = [''event: x'', ''data: '' @ stringify_sample (JObj [(''directory'', JStr ''/w''), (''payload'', JNull)])]"
proof -
  have d0: "parseSseDataPayload parse_sample (''data: '' @ idle_text) = Some idle_event"
    by (simp add: codec_eval parse_sample_def idle_text_def) (simp add: idle_event_def)
  have d1: "parseSseDataPayload parse_sample ''event: x'' = None"
    by (simp add: codec_eval)
  have h: "\<forall>block \<in> set [''data: '' @ idle_text, ''event: x''].
       LF \<notin> set (stringify_sample (wrappedPayload ''/w'' (parseSseDataPayload parse_sample block)))"
    using d0 d1
    by (simp add: wrappedPayload_def stringify_sample_def idle_event_def idle_wrapped_text_def
        activity_object_def)
  have s0: "stringify_sample (JObj [(''directory'', JStr ''/w''), (''payload'', idle_event)]) = idle_wrapped_text"
    by (simp add: stringify_sample_def)
  have c: "split_on [LF] ''event: x'' = [''event: x'']"
    by (simp add: cons_first_def)
  from wrap_blocks_shape [where parse = parse_sample and stringify = stringify_sample
         and directory = "''/w''" and blocks = "[''data: '' @ idle_text, ''event: x'']", OF h]
  have "\<forall>i<2. (let out = wrapSseBlocksAsGlobal parse_sample stringify_sample
                             [''data: '' @ idle_text, ''event: x''] ''/w'' ! i;
                 envelope = JObj [(''directory'', JStr ''/w''),
                                  (''payload'', case parseSseDataPayload parse_sample
                                                       ([''data: '' @ idle_text, ''event: x''] ! i) of
                                                  None \<Rightarrow> JNull | Some p \<Rightarrow> p)]
             in split_on [LF] out =
                  filter (\<lambda>line. \<not> startsWith line ''data:'')
                    (split_on [LF] ([''data: '' @ idle_text, ''event: x''] ! i))
                  @ [''data: '' @ stringify_sample envelope]
                \<and> dataLines out = [stringify_sample envelope])"
    by (simp add: Let_def)
  from this [rule_format, of 0] this [rule_format, of 1] h d0 d1 s0 c show ?thesis
    by (simp add: Let_def startsWith_def)
qed

section \<open>Properties of the relay loop\<close>

lemma cut_buffer:
  "joined (butlast (split_on [LF, LF] s)) @ last (split_on [LF, LF] s) = s"
  using join_butlast_last [where xs = "split_on [LF, LF] s" and sep = "[LF, LF]"]
        join_split_on [of "[LF, LF]" s] split_on_nonempty [of "[LF, LF]" s]
  by (simp add: joined_def)

lemma batches_residual:
  "concat (map joined (batches inject buf chunks)) @ residual inject buf chunks
     = buf @ concat (map (norm_chunk inject) chunks)"
proof (induction chunks arbitrary: buf)
  case Nil
  show ?case by simp
next
  case (Cons chunk chunks)
  show ?case
  proof (cases "chunk = []")
    case True
    with Cons show ?thesis by (simp add: norm_chunk_def)
  next
    case False
    let ?s = "buf @ norm_chunk inject chunk"
    have "concat (map joined (batches inject buf (chunk # chunks))) @ residual inject buf (chunk # chunks)
          = joined (butlast (split_on [LF, LF] ?s))
            @ (concat (map joined (batches inject (last (split_on [LF, LF] ?s)) chunks))
               @ residual inject (last (split_on [LF, LF] ?s)) chunks)"
      using False by simp
    also have "\<dots> = joined (butlast (split_on [LF, LF] ?s))
            @ (last (split_on [LF, LF] ?s) @ concat (map (norm_chunk inject) chunks))"
      by (simp only: Cons.IH)
    also have "\<dots> = ?s @ concat (map (norm_chunk inject) chunks)"
      using cut_buffer [of ?s] by (simp only: append_assoc [symmetric])
    finally show ?thesis by simp
  qed
qed

lemma crlf_append:
  "xs = [] \<or> last xs \<noteq> CR \<Longrightarrow> crlf_to_lf (xs @ ys) = crlf_to_lf xs @ crlf_to_lf ys"
proof (induction xs rule: crlf_to_lf.induct)
  case 1
  then show ?case by simp
next
  case (2 c)
  then show ?case by (cases ys) auto
next
  case (3 a b cs)
  then show ?case by (cases cs) (auto split: if_splits)
qed

lemma crlf_last: "xs \<noteq> [] \<Longrightarrow> last xs \<noteq> CR \<Longrightarrow> crlf_to_lf xs \<noteq> [] \<and> last (crlf_to_lf xs) \<noteq> CR"
  by (induction xs rule: crlf_to_lf.induct) (auto split: if_splits)

lemma crlf_concat:
  "\<forall>c \<in> set chunks. c = [] \<or> last c \<noteq> CR \<Longrightarrow>
   concat (map crlf_to_lf chunks) = crlf_to_lf (concat chunks)"
  by (induction chunks) (simp_all add: crlf_append)

text \<open>
  The source normalises each read on its own, so a CRLF cut by a read boundary stays:
  the block \<open>a<CR><LF><CR><LF>\<close> is released when it arrives in one read, and is not
  when the last line feed arrives in a read of its own.
\<close>

lemma crlf_across_reads:
  "batches True [] [''a'' @ [CR, LF, CR, LF]] = [[''a'']]
   \<and> batches True [] [''a'' @ [CR, LF, CR], [LF]] = [[], []]
   \<and> residual True [] [''a'' @ [CR, LF, CR], [LF]] = ''a'' @ [LF, CR, LF]"
  by (simp add: norm_chunk_def cons_first_def)

lemma outboundBlocks_buffer:
  "outboundBlocks parse stringify now (r\<lparr>sseBuffer := b\<rparr>) blocks = outboundBlocks parse stringify now r blocks"
  by (simp add: outboundBlocks_def)

lemma outbound_marked:
  "\<not> wrapAsGlobal r \<Longrightarrow>
   outboundBlocks parse stringify now r blocks
     = map snd (marked_blocks parse stringify now (shouldInjectActivity r) blocks)"
  by (simp add: outboundBlocks_def marked_blocks_def expand_marked_erase comp_def)

lemma marked_erase:
  "map snd (filter fst (marked_blocks parse stringify now inject blocks)) = blocks"
  by (simp add: marked_blocks_def expand_marked_erase comp_def)

lemma pop_last: "(case xs of [] \<Rightarrow> [] | a # list \<Rightarrow> last xs) = (if xs = [] then [] else last xs)"
  by (cases xs) simp_all

lemma relayRead_ghost:
  assumes "\<not> wrapAsGlobal r" "chunk \<noteq> []"
  shows "relayRead parse stringify now chunk (r, w) =
           (r\<lparr>sseBuffer := last (split_on [LF, LF] (sseBuffer r @ norm_chunk (shouldInjectActivity r) chunk))\<rparr>,
            w\<lparr>posted := posted w @ chunk_messages parse stringify now (r_entry r) (r_streamId r) (shouldInjectActivity r)
                 [butlast (split_on [LF, LF] (sseBuffer r @ norm_chunk (shouldInjectActivity r) chunk))]\<rparr>)"
proof -
  let ?bl = "split_on [LF, LF] (sseBuffer r @ norm_chunk (shouldInjectActivity r) chunk)"
  have rd: "relayRead parse stringify now chunk (r, w) =
          (if length (butlast ?bl) > 0
           then (r\<lparr>sseBuffer := last ?bl\<rparr>,
                 postMessage (r_entry r)
                   (Chunk (r_streamId r) (joined (outboundBlocks parse stringify now r (butlast ?bl)))) w)
           else (r\<lparr>sseBuffer := last ?bl\<rparr>, w))"
    using assms(2)
    by (simp add: relayRead_def Let_def norm_chunk_def pop_last split_on_nonempty del: length_butlast)
  show ?thesis
  proof (cases "butlast ?bl = []")
    case True
    then show ?thesis unfolding rd by (simp add: chunk_messages_def del: length_butlast)
  next
    case False
    then show ?thesis
      unfolding rd using assms(1)
      by (simp add: chunk_messages_def postMessage_def outbound_marked del: length_butlast)
  qed
qed

lemma relayLoop_reads:
  assumes "\<not> wrapAsGlobal r" "r_controller r \<notin> aborted w"
  shows "relayLoop parse stringify now tail (map ReadValue chunks @ rest) (r, w) =
           relayLoop parse stringify now tail rest
             (r\<lparr>sseBuffer := residual (shouldInjectActivity r) (sseBuffer r) chunks\<rparr>,
              w\<lparr>posted := posted w @ chunk_messages parse stringify now (r_entry r) (r_streamId r) (shouldInjectActivity r)
                   (batches (shouldInjectActivity r) (sseBuffer r) chunks)\<rparr>)"
  using assms
proof (induction chunks arbitrary: r w)
  case Nil
  show ?case by (simp add: chunk_messages_def)
next
  case (Cons chunk chunks)
  show ?case
  proof (cases "chunk = []")
    case True
    with Cons.prems Cons.IH [of r w] show ?thesis
      by (simp add: relayRead_def)
  next
    case False
    let ?r = "r\<lparr>sseBuffer := last (split_on [LF, LF] (sseBuffer r @ norm_chunk (shouldInjectActivity r) chunk))\<rparr>"
    let ?w = "w\<lparr>posted := posted w @ chunk_messages parse stringify now (r_entry r) (r_streamId r) (shouldInjectActivity r)
                 [butlast (split_on [LF, LF] (sseBuffer r @ norm_chunk (shouldInjectActivity r) chunk))]\<rparr>"
    have p: "\<not> wrapAsGlobal ?r" "r_controller ?r \<notin> aborted ?w"
      using Cons.prems by simp_all
    show ?thesis
      using Cons.prems False Cons.IH [OF p]
      by (simp add: relayRead_ghost) (simp add: chunk_messages_def)
  qed
qed

lemma relayEnd_posted:
  assumes "\<not> wrapAsGlobal r"
  shows "posted (snd (relayEnd parse stringify now [] (r, w))) =
           posted w
           @ (if sseBuffer r = [] then []
              else [(r_entry r, Chunk (r_streamId r)
                      (if shouldInjectActivity r
                       then joined (map snd (marked_blocks parse stringify now True [sseBuffer r]))
                       else sseBuffer r))])
           @ [(r_entry r, End (r_streamId r) None)]"
  using assms
  by (simp add: relayEnd_def Let_def cleanup_posted postMessage_def marked_blocks_def
      split: option.splits)

lemma sample_idle_decoded:
  "parseSseDataPayload parse_sample (''data: '' @ idle_text) = Some idle_event"
  by (simp add: codec_eval parse_sample_def idle_text_def) (simp add: idle_event_def)

lemma sample_idle_wrapped:
  "wrapSseBlock parse_sample stringify_sample ''/w'' (''data: '' @ idle_text) = ''data: '' @ idle_wrapped_text"
  unfolding wrapSseBlock_def sample_idle_decoded Let_def
  by (simp add: wrappedPayload_def stringify_sample_def)
     (simp add: idle_text_def startsWith_def cons_first_def idle_event_def)

lemma sample_wrapped_decoded:
  "parseSseDataPayload parse_sample (''data: '' @ idle_wrapped_text) = Some idle_event"
  by (simp add: codec_eval parse_sample_def idle_wrapped_text_def idle_text_def)
     (simp add: idle_event_def)

lemma sample_idle_activity:
  "deriveSessionActivity (Some idle_event) = Some \<lparr>sessionId = ''s1'', phase = Idle\<rparr>"
  by (simp add: deriveSessionActivity_def idle_event_def nullish_def)

lemma sample_wrapped_outbound:
  "outboundBlocks parse_sample stringify_sample 0 sample_wrapped_stream [''data: '' @ idle_text]
     = [''data: '' @ idle_wrapped_text, ''event: message'' @ [LF] @ ''data: '' @ idle_activity_text]"
  using sample_idle_wrapped sample_wrapped_decoded sample_idle_activity
  by (simp add: outboundBlocks_def wrapSseBlocksAsGlobal_def buildActivityEventBlock_def
      stringify_sample_def sample_wrapped_stream_def)
     (simp add: activity_object_def idle_event_def)

text \<open>
  C1, as stated, fails on a wrapped stream: the data lines of every block are replaced
  by the envelope. The read \<open>data: <idle event><LF><LF>\<close> on the wrapped sample stream
  posts one chunk of two blocks; without the injected activity block, what is left is
  the wrapped block, not the block that was read.
\<close>

theorem relay_wrapped_rewrites_counterexample:
  "posted (snd (relayLoop parse_sample stringify_sample 0 []
                  [ReadValue (''data: '' @ idle_text @ [LF, LF])]
                  (sample_wrapped_stream, sample_provider)))
     = [(0, Chunk ''sse_1_5''
              (joined [''data: '' @ idle_wrapped_text,
                       ''event: message'' @ [LF] @ ''data: '' @ idle_activity_text]))]
   \<and> joined [''data: '' @ idle_wrapped_text] \<noteq> ''data: '' @ idle_text @ [LF, LF]"
proof -
  have s: "split_on [LF, LF] (crlf_to_lf (''data: '' @ idle_text @ [LF, LF])) = [''data: '' @ idle_text, []]"
    by (simp add: idle_text_def cons_first_def)
  have "relayRead parse_sample stringify_sample 0 (''data: '' @ idle_text @ [LF, LF])
          (sample_wrapped_stream, sample_provider)
        = (sample_wrapped_stream,
           postMessage 0 (Chunk ''sse_1_5''
             (joined (outboundBlocks parse_sample stringify_sample 0 sample_wrapped_stream
                        [''data: '' @ idle_text]))) sample_provider)"
    unfolding relayRead_def Let_def
    by (simp add: s [simplified] sample_wrapped_stream_def)
  then show ?thesis
    unfolding sample_wrapped_outbound
    by (simp add: sample_provider_def sample_wrapped_stream_def postMessage_def)
       (simp add: joined_def idle_text_def idle_wrapped_text_def)
qed

text \<open>
  C1, amended: on a stream that is not wrapped, for every sequence of reads delivered
  across arbitrary boundaries (in activity-tracking mode: none of them ending in a
  carriage return), with no cancellation: the chunks posted are the batches of complete
  blocks, each block followed by its terminator, with the activity blocks injected
  after their source blocks; removing the injected blocks gives the batches back; the
  batches with their terminators, followed by the residual buffer, are the text read
  (with CRLF turned to LF in activity-tracking mode). At the end of the body the
  non-empty residual buffer is flushed, followed by a terminator in activity-tracking
  mode and as it is otherwise, and the end message follows.
\<close>

theorem relay_preserves_upstream:
  assumes "\<not> wrapAsGlobal r" and "sseBuffer r = []" and "r_controller r \<notin> aborted w"
      and "shouldInjectActivity r \<longrightarrow> (\<forall>c \<in> set chunks. c = [] \<or> last c \<noteq> CR)"
  shows "posted (snd (relayLoop parse stringify now [] (map ReadValue chunks) (r, w)))
           = posted w @ chunk_messages parse stringify now (r_entry r) (r_streamId r) (shouldInjectActivity r)
                          (batches (shouldInjectActivity r) [] chunks)
       \<and> sseBuffer (fst (relayLoop parse stringify now [] (map ReadValue chunks) (r, w)))
           = residual (shouldInjectActivity r) [] chunks
       \<and> (\<forall>b. map snd (filter fst (marked_blocks parse stringify now (shouldInjectActivity r) b)) = b)
       \<and> concat (map joined (batches (shouldInjectActivity r) [] chunks))
           @ residual (shouldInjectActivity r) [] chunks
           = norm_chunk (shouldInjectActivity r) (concat chunks)
       \<and> posted (snd (relayLoop parse stringify now [] (map ReadValue chunks @ [ReadDone]) (r, w)))
           = posted w @ chunk_messages parse stringify now (r_entry r) (r_streamId r) (shouldInjectActivity r)
                          (batches (shouldInjectActivity r) [] chunks)
             @ (if residual (shouldInjectActivity r) [] chunks = [] then []
                else [(r_entry r, Chunk (r_streamId r)
                        (if shouldInjectActivity r
                         then joined (map snd (marked_blocks parse stringify now True
                                [residual (shouldInjectActivity r) [] chunks]))
                         else residual (shouldInjectActivity r) [] chunks))])
             @ [(r_entry r, End (r_streamId r) None)]"
proof -
  let ?inj = "shouldInjectActivity r"
  let ?r = "r\<lparr>sseBuffer := residual ?inj [] chunks\<rparr>"
  let ?w = "w\<lparr>posted := posted w @ chunk_messages parse stringify now (r_entry r) (r_streamId r) ?inj
                 (batches ?inj [] chunks)\<rparr>"
  have reads: "relayLoop parse stringify now [] (map ReadValue chunks @ rest) (r, w)
                 = relayLoop parse stringify now [] rest (?r, ?w)" for rest
    using relayLoop_reads [OF assms(1) assms(3), of parse stringify now "[]" chunks rest] assms(2)
    by simp
  have a: "relayLoop parse stringify now [] (map ReadValue chunks) (r, w) = (?r, ?w)"
    using reads [of "[]"] by simp
  have b: "relayLoop parse stringify now [] (map ReadValue chunks @ [ReadDone]) (r, w)
             = relayEnd parse stringify now [] (?r, ?w)"
    using reads [of "[ReadDone]"] by simp
  have nw: "\<not> wrapAsGlobal ?r" using assms(1) by simp
  have whole: "concat (map joined (batches ?inj [] chunks)) @ residual ?inj [] chunks
                = norm_chunk ?inj (concat chunks)"
  proof (cases ?inj)
    case True
    with assms(4) have "concat (map crlf_to_lf chunks) = crlf_to_lf (concat chunks)"
      by (intro crlf_concat) simp
    with True show ?thesis
      using batches_residual [of True "[]" chunks] by (simp add: norm_chunk_def [abs_def])
  next
    case False
    then show ?thesis
      using batches_residual [of False "[]" chunks] by (simp add: norm_chunk_def [abs_def])
  qed
  show ?thesis
    unfolding a b relayEnd_posted [OF nw]
    using whole marked_erase by simp
qed

theorem relay_preserves_upstream_witness:
  "\<not> wrapAsGlobal sample_stream \<and> sseBuffer sample_stream = [] \<and> 2 \<notin> aborted sample_provider
   \<and> list_all (\<lambda>c. c = [] \<or> last c \<noteq> CR) sample_reads
   \<and> posted (snd (relayLoop parse_sample stringify_sample 0 []
        (map ReadValue sample_reads @ [ReadDone]) (sample_stream, sample_provider)))
      = [(0, Chunk ''sse_1_5'' (''data: x'' @ [LF, LF])),
         (0, Chunk ''sse_1_5'' (''data: y'' @ [LF, LF])),
         (0, Chunk ''sse_1_5'' (''z'' @ [LF, LF])),
         (0, End ''sse_1_5'' None)]"
proof -
  have c: "list_all (\<lambda>c. c = [] \<or> last c \<noteq> CR) sample_reads"
    by (simp add: sample_reads_def)
  have h: "\<not> wrapAsGlobal sample_stream" "sseBuffer sample_stream = []"
    "r_controller sample_stream \<notin> aborted sample_provider"
    "shouldInjectActivity sample_stream \<longrightarrow> (\<forall>c \<in> set sample_reads. c = [] \<or> last c \<noteq> CR)"
    using c by (simp_all add: sample_stream_def sample_provider_def list_all_iff)
  have b: "batches True [] sample_reads = [[], [''data: x''], [''data: y'']]"
    and r: "residual True [] sample_reads = ''z''"
    by (simp_all add: sample_reads_def norm_chunk_def cons_first_def)
  have n: "deriveSessionActivity (parseSseDataPayload parse_sample ''data: x'') = None"
    "deriveSessionActivity (parseSseDataPayload parse_sample ''data: y'') = None"
    "deriveSessionActivity (parseSseDataPayload parse_sample ''z'') = None"
    by (simp_all add: codec_eval sample_parse_eval deriveSessionActivity_def)
  have s: "shouldInjectActivity sample_stream = True" "r_entry sample_stream = 0"
    "r_streamId sample_stream = ''sse_1_5''" "posted sample_provider = []"
    "2 \<notin> aborted sample_provider"
    by (simp_all add: sample_stream_def sample_provider_def)
  note e = relay_preserves_upstream [OF h, of parse_sample stringify_sample 0,
      THEN conjunct2, THEN conjunct2, THEN conjunct2, THEN conjunct2]
  have "posted (snd (relayLoop parse_sample stringify_sample 0 []
        (map ReadValue sample_reads @ [ReadDone]) (sample_stream, sample_provider)))
      = [(0, Chunk ''sse_1_5'' (''data: x'' @ [LF, LF])),
         (0, Chunk ''sse_1_5'' (''data: y'' @ [LF, LF])),
         (0, Chunk ''sse_1_5'' (''z'' @ [LF, LF])),
         (0, End ''sse_1_5'' None)]"
    using e n
    by (simp add: s b r chunk_messages_def marked_blocks_def joined_def)
  with h s c show ?thesis by simp
qed

section \<open>Properties of the start request\<close>

declare decimal.simps [simp del]

lemma start_no_backend:
  assumes "apiUrl pf = None \<or> apiUrl pf = Some []"
  shows "startSseProxy pf msg e w =
           Inr (\<lparr>res_id = req_id msg, res_type = req_type msg, success = True,
                 data = StartData 503 [''content-type'' \<mapsto> ''application/json''] None None\<rparr>, w, None)"
  using assms by (auto simp: startSseProxy_def Let_def or_else_def start_response_def)

lemma start_fetch_throws:
  assumes "or_else (apiUrl pf) [] \<noteq> []"
      and "resolveUrl pf (strip_leading_slashes (normalizedPath msg)) (baseUrl pf) = Inr targetUrl"
      and "fetchWithFallback pf (normalizedPath msg) (baseUrl pf) targetUrl (requestHeaders msg) = Inl error"
  shows "startSseProxy pf msg e w =
           Inr (\<lparr>res_id = req_id msg, res_type = req_type msg, success = True,
                 data = StartData 502 [''content-type'' \<mapsto> ''application/json''] None
                          (Some (messageText error))\<rparr>,
                w\<lparr>sseCounter := sseCounter w + 1, fresh := fresh w + 1\<rparr>, None)"
  using assms
  by (simp add: startSseProxy_def startSseProxyResume_def Let_def start_response_def)

lemma fetchWithFallback_throws:
  "fetchWithFallback pf np base targetUrl hs = Inl error \<longleftrightarrow>
     fetch pf targetUrl hs = FetchThrows error
     \<or> (\<exists>first. fetch pf targetUrl hs = FetchResponse first
           \<and> (\<not> resp_ok first \<or> \<not> resp_body first) \<and> np = ''/global/event''
           \<and> (resolveUrl pf ''event'' base = Inl error
                \<or> (\<exists>fallbackUrl. resolveUrl pf ''event'' base = Inr fallbackUrl
                      \<and> fetch pf fallbackUrl hs = FetchThrows error)))"
  by (auto simp: fetchWithFallback_def split: fetch_result.splits sum.splits)

lemma start_rejected:
  assumes "or_else (apiUrl pf) [] \<noteq> []"
      and "resolveUrl pf (strip_leading_slashes (normalizedPath msg)) (baseUrl pf) = Inr targetUrl"
      and "fetchWithFallback pf (normalizedPath msg) (baseUrl pf) targetUrl (requestHeaders msg)
             = Inr (resp, wrap)"
      and "\<not> resp_ok resp \<or> \<not> resp_body resp"
  shows "startSseProxy pf msg e w =
           Inr (\<lparr>res_id = req_id msg, res_type = req_type msg, success = True,
                 data = StartData (resp_status resp) (collectHeaders (resp_headers resp)) None
                          (Some (''SSE failed: '' @ decimal (resp_status resp)))\<rparr>,
                w\<lparr>sseCounter := sseCounter w + 1, fresh := fresh w + 1\<rparr>, None)"
  using assms
  by (auto simp add: startSseProxy_def startSseProxyResume_def Let_def start_response_def)

lemma start_url_throws:
  assumes "or_else (apiUrl pf) [] \<noteq> []"
      and "resolveUrl pf (strip_leading_slashes (normalizedPath msg)) (baseUrl pf) = Inl error"
  shows "startSseProxy pf msg e w =
           Inl (error, w\<lparr>sseCounter := sseCounter w + 1, fresh := fresh w + 1\<rparr>)"
  using assms by (simp add: startSseProxy_def Let_def)

lemma fetchWithFallback_fetch_cong:
  "\<forall>url. f url hs = fetch pf url hs \<Longrightarrow>
   fetchWithFallback (pf\<lparr>fetch := f\<rparr>) np base targetUrl hs = fetchWithFallback pf np base targetUrl hs"
  by (simp add: fetchWithFallback_def split: fetch_result.splits sum.splits)

lemma resume_without_fetch:
  "startSseProxyResume (pf\<lparr>fetch := f\<rparr>) msg e sid ctl fetched w
     = startSseProxyResume pf msg e sid ctl fetched w"
  by (simp add: startSseProxyResume_def split: sum.splits prod.splits)

lemma start_fetch_cong:
  assumes "\<forall>url. f url (requestHeaders msg) = fetch pf url (requestHeaders msg)"
  shows "startSseProxy (pf\<lparr>fetch := f\<rparr>) msg e w = startSseProxy pf msg e w"
  using fetchWithFallback_fetch_cong [where f = f and pf = pf and hs = "requestHeaders msg"] assms
  by (simp add: startSseProxy_def Let_def baseUrl_def resume_without_fetch split: sum.splits)

text \<open>
  C8: for every caller-supplied header map, the request headers are the three fixed
  headers merged with the caller's, the caller's value taking precedence on a key
  collision: a key of the caller map has the caller's value, any other key has the
  fixed value (and only the three fixed keys have one); so a fixed header keeps its
  value when the caller map lacks the key, and is replaced by the caller's value when
  the caller map has it. These are the headers of the upstream request: the
  \<open>requestHeaders\<close> of a start request are the merge for the headers of its payload (for
  none when it has none), the start request calls \<open>fetch\<close> with them and with no others
  (its result is the same for any two \<open>fetch\<close> that agree on these headers), at the
  target URL and, in the fallback, at the \<open>/event\<close> URL.
\<close>

theorem buildSseHeaders_precedence:
  "buildSseHeaders (Some headers) k =
     (case headers k of Some v \<Rightarrow> Some v | None \<Rightarrow> fixedSseHeaders k)
   \<and> buildSseHeaders None k = fixedSseHeaders k
   \<and> fixedSseHeaders ''Accept'' = Some ''text/event-stream''
   \<and> fixedSseHeaders ''Cache-Control'' = Some ''no-cache''
   \<and> fixedSseHeaders ''Connection'' = Some ''keep-alive''
   \<and> dom fixedSseHeaders = {''Accept'', ''Cache-Control'', ''Connection''}
   \<and> (buildSseHeaders (Some headers) k = fixedSseHeaders k
        \<longleftrightarrow> headers k = None \<or> headers k = fixedSseHeaders k)
   \<and> requestHeaders msg k =
        (case req_headers msg of
           None \<Rightarrow> fixedSseHeaders k
         | Some supplied \<Rightarrow> (case supplied k of Some v \<Rightarrow> Some v | None \<Rightarrow> fixedSseHeaders k))
   \<and> ((\<forall>url. f url (requestHeaders msg) = fetch pf url (requestHeaders msg)) \<longrightarrow>
        startSseProxy (pf\<lparr>fetch := f\<rparr>) msg e w = startSseProxy pf msg e w)
   \<and> (or_else (apiUrl pf) [] \<noteq> []
        \<and> resolveUrl pf (strip_leading_slashes (normalizedPath msg)) (baseUrl pf) = Inr targetUrl
        \<and> fetch pf targetUrl (requestHeaders msg) = FetchThrows error \<longrightarrow>
        startSseProxy pf msg e w =
          Inr (\<lparr>res_id = req_id msg, res_type = req_type msg, success = True,
                data = StartData 502 [''content-type'' \<mapsto> ''application/json''] None
                         (Some (messageText error))\<rparr>,
               w\<lparr>sseCounter := sseCounter w + 1, fresh := fresh w + 1\<rparr>, None))
   \<and> (or_else (apiUrl pf) [] \<noteq> []
        \<and> resolveUrl pf (strip_leading_slashes (normalizedPath msg)) (baseUrl pf) = Inr targetUrl
        \<and> normalizedPath msg = ''/global/event''
        \<and> fetch pf targetUrl (requestHeaders msg) = FetchResponse first
        \<and> \<not> (resp_ok first \<and> resp_body first)
        \<and> resolveUrl pf ''event'' (baseUrl pf) = Inr fallbackUrl
        \<and> fetch pf fallbackUrl (requestHeaders msg) = FetchThrows error \<longrightarrow>
        startSseProxy pf msg e w =
          Inr (\<lparr>res_id = req_id msg, res_type = req_type msg, success = True,
                data = StartData 502 [''content-type'' \<mapsto> ''application/json''] None
                         (Some (messageText error))\<rparr>,
               w\<lparr>sseCounter := sseCounter w + 1, fresh := fresh w + 1\<rparr>, None))"
proof -
  have a: "buildSseHeaders (Some headers) k =
     (case headers k of Some v \<Rightarrow> Some v | None \<Rightarrow> fixedSseHeaders k)"
    by (simp add: buildSseHeaders_def map_add_def)
  have b: "dom fixedSseHeaders = {''Accept'', ''Cache-Control'', ''Connection''}"
    by (auto simp: fixedSseHeaders_def)
  have c: "buildSseHeaders (Some headers) k = fixedSseHeaders k
        \<longleftrightarrow> headers k = None \<or> headers k = fixedSseHeaders k"
    unfolding a by (cases "headers k") auto
  have helper: "buildSseHeaders (Some headers) k =
     (case headers k of Some v \<Rightarrow> Some v | None \<Rightarrow> fixedSseHeaders k)
   \<and> buildSseHeaders None k = fixedSseHeaders k
   \<and> fixedSseHeaders ''Accept'' = Some ''text/event-stream''
   \<and> fixedSseHeaders ''Cache-Control'' = Some ''no-cache''
   \<and> fixedSseHeaders ''Connection'' = Some ''keep-alive''
   \<and> dom fixedSseHeaders = {''Accept'', ''Cache-Control'', ''Connection''}
   \<and> (buildSseHeaders (Some headers) k = fixedSseHeaders k
        \<longleftrightarrow> headers k = None \<or> headers k = fixedSseHeaders k)"
    using a b c by (simp add: buildSseHeaders_def) (simp add: fixedSseHeaders_def)
  have req: "requestHeaders msg k =
        (case req_headers msg of
           None \<Rightarrow> fixedSseHeaders k
         | Some supplied \<Rightarrow> (case supplied k of Some v \<Rightarrow> Some v | None \<Rightarrow> fixedSseHeaders k))"
    by (simp add: requestHeaders_def buildSseHeaders_def map_add_def split: option.splits)
  have cong: "startSseProxy (pf\<lparr>fetch := f\<rparr>) msg e w = startSseProxy pf msg e w"
    if "\<forall>url. f url (requestHeaders msg) = fetch pf url (requestHeaders msg)"
    using that by (rule start_fetch_cong)
  have first_call: "startSseProxy pf msg e w =
          Inr (\<lparr>res_id = req_id msg, res_type = req_type msg, success = True,
                data = StartData 502 [''content-type'' \<mapsto> ''application/json''] None
                         (Some (messageText error))\<rparr>,
               w\<lparr>sseCounter := sseCounter w + 1, fresh := fresh w + 1\<rparr>, None)"
    if "or_else (apiUrl pf) [] \<noteq> []"
       "resolveUrl pf (strip_leading_slashes (normalizedPath msg)) (baseUrl pf) = Inr targetUrl"
       "fetch pf targetUrl (requestHeaders msg) = FetchThrows error"
    using that(1,2)
    by (rule start_fetch_throws) (simp add: fetchWithFallback_throws that(3))
  have second_call: "startSseProxy pf msg e w =
          Inr (\<lparr>res_id = req_id msg, res_type = req_type msg, success = True,
                data = StartData 502 [''content-type'' \<mapsto> ''application/json''] None
                         (Some (messageText error))\<rparr>,
               w\<lparr>sseCounter := sseCounter w + 1, fresh := fresh w + 1\<rparr>, None)"
    if "or_else (apiUrl pf) [] \<noteq> []"
       "resolveUrl pf (strip_leading_slashes (normalizedPath msg)) (baseUrl pf) = Inr targetUrl"
       "normalizedPath msg = ''/global/event''"
       "fetch pf targetUrl (requestHeaders msg) = FetchResponse first"
       "\<not> (resp_ok first \<and> resp_body first)"
       "resolveUrl pf ''event'' (baseUrl pf) = Inr fallbackUrl"
       "fetch pf fallbackUrl (requestHeaders msg) = FetchThrows error"
    using that(1,2)
    by (rule start_fetch_throws) (use that in \<open>simp add: fetchWithFallback_def\<close>)
  have i1: "(\<forall>url. f url (requestHeaders msg) = fetch pf url (requestHeaders msg)) \<longrightarrow>
        startSseProxy (pf\<lparr>fetch := f\<rparr>) msg e w = startSseProxy pf msg e w"
    using cong by blast
  have i2: "or_else (apiUrl pf) [] \<noteq> []
        \<and> resolveUrl pf (strip_leading_slashes (normalizedPath msg)) (baseUrl pf) = Inr targetUrl
        \<and> fetch pf targetUrl (requestHeaders msg) = FetchThrows error \<longrightarrow>
        startSseProxy pf msg e w =
          Inr (\<lparr>res_id = req_id msg, res_type = req_type msg, success = True,
                data = StartData 502 [''content-type'' \<mapsto> ''application/json''] None
                         (Some (messageText error))\<rparr>,
               w\<lparr>sseCounter := sseCounter w + 1, fresh := fresh w + 1\<rparr>, None)"
    using first_call by blast
  have i3: "or_else (apiUrl pf) [] \<noteq> []
        \<and> resolveUrl pf (strip_leading_slashes (normalizedPath msg)) (baseUrl pf) = Inr targetUrl
        \<and> normalizedPath msg = ''/global/event''
        \<and> fetch pf targetUrl (requestHeaders msg) = FetchResponse first
        \<and> \<not> (resp_ok first \<and> resp_body first)
        \<and> resolveUrl pf ''event'' (baseUrl pf) = Inr fallbackUrl
        \<and> fetch pf fallbackUrl (requestHeaders msg) = FetchThrows error \<longrightarrow>
        startSseProxy pf msg e w =
          Inr (\<lparr>res_id = req_id msg, res_type = req_type msg, success = True,
                data = StartData 502 [''content-type'' \<mapsto> ''application/json''] None
                         (Some (messageText error))\<rparr>,
               w\<lparr>sseCounter := sseCounter w + 1, fresh := fresh w + 1\<rparr>, None)"
    using second_call by blast
  show ?thesis
    using helper req i1 i2 i3 by (elim conjE) (intro conjI; assumption)
qed

theorem buildSseHeaders_precedence_witness:
  "buildSseHeaders (Some [''Accept'' \<mapsto> ''text/plain'', ''X-Token'' \<mapsto> ''t'']) ''Accept''
     = Some ''text/plain''
   \<and> buildSseHeaders (Some [''Accept'' \<mapsto> ''text/plain'', ''X-Token'' \<mapsto> ''t'']) ''Connection''
     = Some ''keep-alive''
   \<and> requestHeaders sample_start_headers ''Accept'' = Some ''text/plain''
   \<and> requestHeaders sample_start_headers ''X-Token'' = Some ''t''
   \<and> requestHeaders sample_start_headers ''Cache-Control'' = Some ''no-cache''
   \<and> fetch sample_refusing_platform ''http://127.0.0.1:4096/event'' (requestHeaders sample_start_headers)
       = FetchThrows (JsError ''refused'')
   \<and> startSseProxy sample_refusing_platform sample_start_headers 0 sample_provider =
       Inr (\<lparr>res_id = ''9'', res_type = ''api:sse:start'', success = True,
             data = StartData 502 [''content-type'' \<mapsto> ''application/json''] None (Some ''refused'')\<rparr>,
            sample_provider\<lparr>sseCounter := 3, fresh := 6\<rparr>, None)"
proof -
  note t = buildSseHeaders_precedence
  have r: "requestHeaders sample_start_headers ''Accept'' = Some ''text/plain''"
    "requestHeaders sample_start_headers ''X-Token'' = Some ''t''"
    "requestHeaders sample_start_headers ''Cache-Control'' = Some ''no-cache''"
    using t [where msg = sample_start_headers and k = "''Accept''"]
          t [where msg = sample_start_headers and k = "''X-Token''"]
          t [where msg = sample_start_headers and k = "''Cache-Control''"]
    by (simp_all add: sample_start_headers_def fixedSseHeaders_def)
  have h: "or_else (apiUrl sample_refusing_platform) [] \<noteq> []"
    "resolveUrl sample_refusing_platform (strip_leading_slashes (normalizedPath sample_start_headers))
       (baseUrl sample_refusing_platform) = Inr ''http://127.0.0.1:4096/event''"
    by (simp_all add: sample_refusing_platform_def sample_platform_def or_else_def
        normalizedPath_def sample_start_headers_def payload_or_empty_def
        strip_leading_slashes_def strip_trailing_slashes_def baseUrl_def)
  have f: "fetch sample_refusing_platform ''http://127.0.0.1:4096/event''
             (requestHeaders sample_start_headers) = FetchThrows (JsError ''refused'')"
    using r(1) by (simp add: sample_refusing_platform_def)
  have s: "startSseProxy sample_refusing_platform sample_start_headers 0 sample_provider =
       Inr (\<lparr>res_id = ''9'', res_type = ''api:sse:start'', success = True,
             data = StartData 502 [''content-type'' \<mapsto> ''application/json''] None (Some ''refused'')\<rparr>,
            sample_provider\<lparr>sseCounter := 3, fresh := 6\<rparr>, None)"
    using t [where pf = sample_refusing_platform and msg = sample_start_headers
               and targetUrl = "''http://127.0.0.1:4096/event''" and error = "JsError ''refused''"
               and e = 0 and w = sample_provider] h f
    by (simp add: sample_start_headers_def sample_provider_def)
  show ?thesis
    using t [of "[''Accept'' \<mapsto> ''text/plain'', ''X-Token'' \<mapsto> ''t'']" "''Accept''"]
          t [of "[''Accept'' \<mapsto> ''text/plain'', ''X-Token'' \<mapsto> ''t'']" "''Connection''"]
          r f s
    by (simp add: fixedSseHeaders_def)
qed

section \<open>Tasks that resume after the disposal of their panel\<close>







text \<open>
  C6 holds in the three cases it lists (the lemmas above) but not for every failed start
  request: the target URL is built before the \<open>try\<close> block, so a path that \<open>new URL\<close>
  rejects makes \<open>_startSseProxy\<close> throw instead of answering. With a backend at
  \<open>http://127.0.0.1:4096\<close>, the request with path \<open>http://[\<close> is not answered: the
  \<open>TypeError\<close> leaves the function, after the stream counter has been incremented and
  the controller made.
\<close>

theorem start_invalid_path_throws:
  "startSseProxy sample_platform sample_start 0 sample_provider =
     Inl (JsError ''Invalid URL'',
          sample_provider\<lparr>sseCounter := sseCounter sample_provider + 1,
                          fresh := fresh sample_provider + 1\<rparr>)"
proof -
  have np: "normalizedPath sample_start = ''http://[''"
    by (simp add: normalizedPath_def sample_start_def payload_or_empty_def trim_def is_ws_def)
  have backend: "or_else (apiUrl sample_platform) [] \<noteq> []"
    by (simp add: sample_platform_def or_else_def)
  have "resolveUrl sample_platform (strip_leading_slashes (normalizedPath sample_start))
          (baseUrl sample_platform) = Inl (JsError ''Invalid URL'')"
    unfolding np by (simp add: sample_platform_def strip_leading_slashes_def)
  with backend show ?thesis by (rule start_url_throws)
qed

theorem start_invalid_path_throws_witness:
  "(case startSseProxy sample_platform sample_start 0 sample_provider of
      Inl thrown_out \<Rightarrow> messageText (fst thrown_out)
    | Inr answered \<Rightarrow> []) = ''Invalid URL''
   \<and> (case startSseProxy sample_platform sample_start 0 sample_provider of
      Inl thrown_out \<Rightarrow> sseCounter (snd thrown_out)
    | Inr answered \<Rightarrow> 0) = 3"
  using start_invalid_path_throws by (simp add: sample_provider_def)

end
